theory Spec2Isabelle
  imports Complex_Main
begin

section \<open>JavaScript values\<close>

text \<open>
  The dashboard script works on untyped JSON payloads.  A value is \<open>undefined\<close>,
  \<open>null\<close>, a boolean, a number (doubles, idealised as reals: JSON carries neither NaN
  nor an infinity), a string, an array, or a plain object given by the list of its own
  properties, as \<open>JSON.parse\<close> built it (keys distinct).
\<close>

datatype jsval =
    JUndefined
  | JNull
  | JBool bool
  | JNum real
  | JStr string
  | JArr "jsval list"
  | JObj "(string \<times> jsval) list"

text \<open>A thrown value: its \<open>name\<close> and its \<open>message\<close>.\<close>

datatype js_error = JsError string string

fun err_name :: "js_error \<Rightarrow> string" where
  "err_name (JsError n m) = n"

fun err_message :: "js_error \<Rightarrow> string" where
  "err_message (JsError n m) = m"

text \<open>JavaScript truthiness, as \<open>if (v)\<close>, \<open>a || b\<close> and \<open>a && b\<close> test it.\<close>

fun truthy :: "jsval \<Rightarrow> bool" where
  "truthy JUndefined = False"
| "truthy JNull = False"
| "truthy (JBool b) = b"
| "truthy (JNum x) = (x \<noteq> 0)"
| "truthy (JStr s) = (s \<noteq> [])"
| "truthy (JArr xs) = True"
| "truthy (JObj kvs) = True"

fun nullish :: "jsval \<Rightarrow> bool" where
  "nullish JUndefined = True"
| "nullish JNull = True"
| "nullish v = False"

text \<open>
  \<open>v.k\<close> on a value that is neither \<open>null\<close> nor \<open>undefined\<close> (there the read throws a
  TypeError, which every caller below checks first with \<open>nullish\<close>).  The keys read by
  the code modelled here (\<open>metrics\<close>, \<open>market_data\<close>, \<open>data_engine_status\<close>,
  \<open>execution_mode\<close>, \<open>daily_pnl\<close>, \<open>balance\<close>, \<open>status\<close>, \<open>mode\<close>, \<open>data_status\<close>,
  \<open>detail\<close>, \<open>message\<close>) are no members of a built-in prototype, so a primitive or an
  array yields \<open>undefined\<close>.
\<close>

fun get_prop :: "jsval \<Rightarrow> string \<Rightarrow> jsval" where
  "get_prop (JObj kvs) k = (case map_of kvs k of Some v \<Rightarrow> v | None \<Rightarrow> JUndefined)"
| "get_prop v k = JUndefined"

text \<open>\<open>a || b\<close> on values.\<close>

definition js_or :: "jsval \<Rightarrow> jsval \<Rightarrow> jsval" where
  "js_or a b = (if truthy a then a else b)"

fun assign_alist :: "string \<Rightarrow> jsval \<Rightarrow> (string \<times> jsval) list \<Rightarrow> (string \<times> jsval) list" where
  "assign_alist k v [] = [(k, v)]"
| "assign_alist k v (p # ps) = (if fst p = k then (k, v) # ps else p # assign_alist k v ps)"

text \<open>
  \<open>o.k = v\<close> on a truthy value: an object gets or replaces its own property; on a
  primitive (number, string, boolean) the assignment is silently dropped (the script
  is a classic, non-strict one).  A named property put on an array is not represented
  in \<open>jsval\<close>; the array is left as it is.
\<close>

fun setp :: "jsval \<Rightarrow> string \<Rightarrow> jsval \<Rightarrow> jsval" where
  "setp (JObj kvs) k v = JObj (assign_alist k v kvs)"
| "setp w k v = w"

text \<open>\<open>s.includes(needle)\<close> on strings.\<close>

fun str_includes :: "string \<Rightarrow> string \<Rightarrow> bool" where
  "str_includes [] needle = (needle = [])"
| "str_includes (c # cs) needle =
     (take (length needle) (c # cs) = needle \<or> str_includes cs needle)"

section \<open>Host environment\<close>

text \<open>
  What the script takes from the browser: the engine's string conversion,
  locale-dependent date formatting (functions of the epoch milliseconds held by a
  \<open>Date\<close>: \<open>toLocaleString('en-US', ...)\<close>, \<open>toLocaleTimeString\<close>,
  \<open>toLocaleDateString\<close>, \<open>toLocaleString()\<close>) and number formatting (\<open>toFixed(2)\<close>,
  \<open>toLocaleString('en-IN')\<close> without and with two fraction digits), the message of
  the TypeError thrown on a property read of \<open>null\<close>, and two
  facts about the document: whether \<open>#mode-layer .mode-grid\<close> exists, and whether
  \<open>initDashboard\<close> has registered its \<open>ACCOUNT_UPDATE\<close> listener.
\<close>

record host =
  toStr :: "jsval \<Rightarrow> string"
  typeErrorMessage :: string
  fmtFull :: "int \<Rightarrow> string"
  fmtCompact :: "int \<Rightarrow> string"
  fmtDate :: "int \<Rightarrow> string"
  fmtLocale :: "int \<Rightarrow> string"
  toFixed2 :: "real \<Rightarrow> string"
  localeIN :: "real \<Rightarrow> string"
  localeIN2 :: "real \<Rightarrow> string"
  modeGrid :: bool
  accountListener :: bool

definition type_error :: "host \<Rightarrow> js_error" where
  "type_error h = JsError ''TypeError'' (typeErrorMessage h)"

text \<open>
  The outcome of \<open>await fetch(url)\<close>: the promise rejects (network failure, abort), or it
  yields a response with its HTTP status and the outcome of \<open>await res.json()\<close>, which
  rejects on a body that is not JSON.
\<close>

datatype fetch_result =
    Rejected js_error
  | Response nat "js_error + jsval"

definition ok :: "nat \<Rightarrow> bool" where
  "ok status = (200 \<le> status \<and> status \<le> 299)"

section \<open>Page state\<close>

text \<open>
  The mutable globals of the page: the fields of the \<open>state\<close> object that the
  synchronisation core reads or writes (\<open>market_data\<close>, \<open>dataEngineStatus\<close> and
  \<open>executionMode\<close> are absent, hence \<open>undefined\<close>, until a tick adds them), the
  module-level \<open>isSwitchingMode\<close>, the text of \<open>#header-execution-mode\<close> and
  \<open>#header-data-status\<close>, and logs of the effects that leave the script: the
  \<open>alert\<close>s shown, the \<open>mode\<close> of each \<open>POST /api/v1/system/mode\<close> sent, the
  \<open>confirmModeSwitch\<close> activations suspended at their \<open>await fetch\<close>, the
  \<open>fetchSystemData()\<close> calls a successful switch starts, the \<open>ACCOUNT_UPDATE\<close>
  events dispatched and the \<open>window.location.reload()\<close> calls.
\<close>

record page =
  isAuth :: bool
  selectedMarket :: string
  metrics :: jsval
  trades :: jsval
  logs :: jsval
  pnlHistory :: "jsval list"
  pnlTimestamps :: "string list"
  pnlFullTimestamps :: "string list"
  chartTimeRange :: string
  account_update :: jsval
  agentV2Status :: jsval
  auditTrail :: jsval
  market_data :: jsval
  dataEngineStatus :: jsval
  executionMode :: jsval
  isSwitchingMode :: bool
  headerMode :: jsval
  headerData :: jsval
  alerts :: "string list"
  modeRequests :: "string list"
  pending :: "string list"
  resyncs :: nat
  accountEvents :: "jsval list"
  reloads :: nat

definition initial_page :: page where
  "initial_page = \<lparr>
     isAuth = False, selectedMarket = ''NIFTY'', metrics = JNull, trades = JArr [],
     logs = JArr [], pnlHistory = [], pnlTimestamps = [], pnlFullTimestamps = [],
     chartTimeRange = ''1D'', account_update = JNull, agentV2Status = JObj [],
     auditTrail = JArr [], market_data = JUndefined, dataEngineStatus = JUndefined,
     executionMode = JUndefined, isSwitchingMode = False, headerMode = JUndefined,
     headerData = JUndefined, alerts = [], modeRequests = [], pending = [],
     resyncs = 0, accountEvents = [], reloads = 0 \<rparr>"

section \<open>Execution-mode display\<close>

text \<open>
  \<open>updateExecutionModeUI(mode, dataStatus)\<close>: the header shows the mode; with the mode
  grid in the document, \<open>mode.toLowerCase()\<close> throws on anything but a string; the
  feed label depends on the mode; last, \<open>state.metrics.execution_mode = mode\<close> when
  \<open>state.metrics\<close> is truthy.  The result is the error thrown, if any, and the page
  as it stands then.
\<close>

definition feed_label :: "jsval \<Rightarrow> jsval \<Rightarrow> jsval \<Rightarrow> jsval" where
  "feed_label mode dataStatus old =
     (if mode = JStr ''MOCK'' then JStr ''INTERNAL FEED''
      else if mode = JStr ''SIMULATION'' then JStr ''HISTORICAL REPLAY''
      else if mode = JStr ''PAPER'' \<or> mode = JStr ''REAL''
        then (if truthy dataStatus then dataStatus else JStr ''LIVE DATA'')
      else old)"

fun is_string :: "jsval \<Rightarrow> bool" where
  "is_string (JStr s) = True"
| "is_string v = False"

definition updateExecutionModeUI ::
  "host \<Rightarrow> jsval \<Rightarrow> jsval \<Rightarrow> page \<Rightarrow> js_error option \<times> page" where
  "updateExecutionModeUI h mode dataStatus st =
     (let st1 = st\<lparr>headerMode := mode\<rparr> in
      if modeGrid h \<and> \<not> is_string mode then (Some (type_error h), st1)
      else
        let st2 = st1\<lparr>headerData := feed_label mode dataStatus (headerData st1)\<rparr> in
        (None,
         if truthy (metrics st2)
         then st2\<lparr>metrics := setp (metrics st2) ''execution_mode'' mode\<rparr>
         else st2))"

text \<open>
  \<open>updateDashboardUI()\<close>, as far as it touches the page state: nothing without metrics;
  otherwise the mode display is refreshed from \<open>state.executionMode\<close> when that is
  truthy.  The rest of the function renders cards and tables from the state and writes
  none of it; an exception there reaches the caller after the writes below.
\<close>

definition updateDashboardUI :: "host \<Rightarrow> page \<Rightarrow> page" where
  "updateDashboardUI h st =
     (if \<not> truthy (metrics st) then st
      else if truthy (executionMode st)
        then snd (updateExecutionModeUI h (executionMode st) (dataEngineStatus st) st)
      else st)"

section \<open>Sync Loop: \<open>fetchSystemData\<close>\<close>

text \<open>
  The repository holds two revisions of the script.  The model follows the later one
  (the one with the mode switch; line numbers below are its own).  The earlier one,
  \<open>static/app.js\<close>, has the same \<open>fetchSystemData\<close> but for the metrics response,
  which it stores as it is (\<open>if (mRes.ok) state.metrics = await mRes.json()\<close>), and
  the same \<open>getFilteredChartData\<close>, \<open>mockHistoricalData\<close> and \<open>controlSystem\<close>.
\<close>

text \<open>
  The body of the \<open>try\<close> block is a sequence of statements.  A statement returns the
  page as it stands when it ends, with the exception it threw, if any; the first
  exception ends the block, and the writes made until then stay.
\<close>

type_synonym stmt = "page \<Rightarrow> js_error option \<times> page"

fun seq_try :: "stmt list \<Rightarrow> page \<Rightarrow> js_error option \<times> page" where
  "seq_try [] st = (None, st)"
| "seq_try (s # ss) st =
     (case s st of
        (Some e, st') \<Rightarrow> (Some e, st')
      | (None, st') \<Rightarrow> seq_try ss st')"

text \<open>\<open>const r = await fetch(url)\<close>: a rejected promise throws here.\<close>

definition await_fetch :: "fetch_result \<Rightarrow> stmt" where
  "await_fetch r st = (case r of Rejected e \<Rightarrow> (Some e, st) | Response s b \<Rightarrow> (None, st))"

text \<open>
  \<open>if (r.ok) state.f = await r.json()\<close>, for the fields that take the body as it is.
  (A rejected fetch has thrown before this statement is reached.)
\<close>

definition apply_json :: "fetch_result \<Rightarrow> (jsval \<Rightarrow> page \<Rightarrow> page) \<Rightarrow> stmt" where
  "apply_json r store st =
     (case r of
        Rejected e \<Rightarrow> (Some e, st)
      | Response s b \<Rightarrow>
          if ok s then (case b of Inl e \<Rightarrow> (Some e, st) | Inr v \<Rightarrow> (None, store v st))
          else (None, st))"

text \<open>
  The metrics response (lines 429 to 435): \<open>data.metrics\<close> throws on a \<open>null\<close> body
  before anything is assigned.
\<close>

definition apply_metrics :: "host \<Rightarrow> fetch_result \<Rightarrow> stmt" where
  "apply_metrics h r st =
     (case r of
        Rejected e \<Rightarrow> (Some e, st)
      | Response s b \<Rightarrow>
          if ok s then
            (case b of
               Inl e \<Rightarrow> (Some e, st)
             | Inr data \<Rightarrow>
                 if nullish data then (Some (type_error h), st)
                 else
                   let st1 = st\<lparr>metrics := js_or (get_prop data ''metrics'') data\<rparr>;
                       st2 = (if truthy (get_prop data ''market_data'')
                              then st1\<lparr>market_data := get_prop data ''market_data''\<rparr> else st1);
                       st3 = (if truthy (get_prop data ''data_engine_status'')
                              then st2\<lparr>dataEngineStatus := get_prop data ''data_engine_status''\<rparr>
                              else st2)
                   in (None, st3\<lparr>executionMode :=
                         js_or (get_prop (metrics st3) ''execution_mode'')
                               (get_prop data ''execution_mode'')\<rparr>))
          else (None, st))"

text \<open>
  The listener \<open>initDashboard\<close> registers for \<open>ACCOUNT_UPDATE\<close>; \<open>dispatchEvent\<close> runs it
  synchronously and does not pass its exceptions on to the dispatcher.
\<close>

definition account_update_listener :: "host \<Rightarrow> jsval \<Rightarrow> page \<Rightarrow> page" where
  "account_update_listener h data st =
     (if truthy data \<and> get_prop data ''balance'' \<noteq> JUndefined then
        updateDashboardUI h
          (if truthy (metrics st)
           then st\<lparr>metrics := setp (metrics st) ''total_capital'' (get_prop data ''balance'')\<rparr>
           else st)
      else st)"

definition store_balance :: "host \<Rightarrow> jsval \<Rightarrow> page \<Rightarrow> page" where
  "store_balance h v st =
     (let st1 = st\<lparr>account_update := v\<rparr>;
          st2 = st1\<lparr>accountEvents := accountEvents st1 @ [v]\<rparr>
      in if accountListener h then account_update_listener h v st2 else st2)"

text \<open>
  What one tick receives: the six fetch outcomes, the clock, and whether
  \<open>refreshChartData()\<close> (called when the chart exists and its tab is visible) throws.
\<close>

record tick_input =
  mRes :: fetch_result
  tRes :: fetch_result
  lRes :: fetch_result
  aRes :: fetch_result
  sRes :: fetch_result
  dRes :: fetch_result
  now :: int
  chartRefresh :: "js_error option"

definition MAX_HISTORY :: nat where
  "MAX_HISTORY = 900"

text \<open>
  Lines 451 to 472: with truthy \<open>state.metrics\<close>, push one point on each of the three
  arrays, then \<open>shift()\<close> each of them when \<open>pnlHistory\<close> is longer than \<open>MAX_HISTORY\<close>
  (\<open>shift()\<close> on an empty array does nothing, as \<open>tl\<close>).
\<close>

definition track_pnl :: "host \<Rightarrow> tick_input \<Rightarrow> stmt" where
  "track_pnl h i st =
     (if truthy (metrics st) then
        let st1 = st\<lparr>pnlHistory := pnlHistory st @ [get_prop (metrics st) ''daily_pnl'']\<rparr>;
            st2 = st1\<lparr>pnlTimestamps := pnlTimestamps st1 @ [fmtCompact h (now i)]\<rparr>;
            st3 = st2\<lparr>pnlFullTimestamps := pnlFullTimestamps st2 @ [fmtFull h (now i)]\<rparr>;
            st4 = (if length (pnlHistory st3) > MAX_HISTORY
                   then st3\<lparr>pnlHistory := tl (pnlHistory st3),
                            pnlTimestamps := tl (pnlTimestamps st3),
                            pnlFullTimestamps := tl (pnlFullTimestamps st3)\<rparr>
                   else st3)
        in (chartRefresh i, st4)
      else (None, st))"

text \<open>Lines 424 to 448: the fetches and the application of their responses.\<close>

definition sync_body :: "host \<Rightarrow> tick_input \<Rightarrow> stmt list" where
  "sync_body h i =
     [await_fetch (mRes i), await_fetch (tRes i), await_fetch (lRes i), await_fetch (aRes i),
      apply_metrics h (mRes i),
      apply_json (tRes i) (\<lambda>v st. st\<lparr>trades := v\<rparr>),
      apply_json (lRes i) (\<lambda>v st. st\<lparr>logs := v\<rparr>),
      apply_json (aRes i) (store_balance h),
      await_fetch (sRes i), await_fetch (dRes i),
      apply_json (sRes i) (\<lambda>v st. st\<lparr>agentV2Status := v\<rparr>),
      apply_json (dRes i) (\<lambda>v st. st\<lparr>auditTrail := v\<rparr>)]"

text \<open>The whole \<open>try\<close> block: then the history, then the dashboard refresh.\<close>

definition tick_body :: "host \<Rightarrow> tick_input \<Rightarrow> stmt list" where
  "tick_body h i = sync_body h i @ [track_pnl h i, (\<lambda>st. (None, updateDashboardUI h st))]"

text \<open>
  \<open>fetchSystemData()\<close>: nothing when not authenticated; otherwise the \<open>try\<close> block, whose
  \<open>catch\<close> logs to the console and returns.  The function always returns the page.
\<close>

definition fetchSystemData :: "host \<Rightarrow> tick_input \<Rightarrow> page \<Rightarrow> page" where
  "fetchSystemData h i st = (if \<not> isAuth st then st else snd (seq_try (tick_body h i) st))"

text \<open>Whether the \<open>try\<close> block of a tick ended in its \<open>catch\<close>.\<close>

definition tick_caught :: "host \<Rightarrow> tick_input \<Rightarrow> page \<Rightarrow> js_error option" where
  "tick_caught h i st = (if \<not> isAuth st then None else fst (seq_try (tick_body h i) st))"


section \<open>Mode switch: \<open>confirmModeSwitch\<close>\<close>

text \<open>ToString: a string is itself; anything else is converted by the engine.\<close>

definition js_to_string :: "host \<Rightarrow> jsval \<Rightarrow> string" where
  "js_to_string h v = (case v of JStr s \<Rightarrow> s | _ \<Rightarrow> toStr h v)"

text \<open>
  \<open>confirmModeSwitch(mode)\<close> up to its \<open>await fetch\<close> (lines 1583 to 1614).
  \<open>confirmed\<close> is the answer \<open>confirm()\<close> gets; it is asked for \<open>REAL\<close> only, and
  only when no switch is in flight.  Proceeding sets the flag and sends the request;
  the activation is then suspended, holding its \<open>mode\<close>.
\<close>

definition confirmModeSwitch :: "string \<Rightarrow> bool \<Rightarrow> page \<Rightarrow> page" where
  "confirmModeSwitch mode confirmed st =
     (if isSwitchingMode st
        then st\<lparr>alerts := alerts st @
               [''Mode change unavailable at this time (Operation in progress)'']\<rparr>
      else if mode = ''REAL'' \<and> \<not> confirmed then st
      else st\<lparr>isSwitchingMode := True,
              modeRequests := modeRequests st @ [mode],
              pending := pending st @ [mode]\<rparr>)"

text \<open>The message the \<open>catch\<close> block shows for a thrown error (lines 1654 to 1664).\<close>

definition errorMessage :: "js_error \<Rightarrow> string" where
  "errorMessage e =
     (if err_name e = ''AbortError''
        then ''Request timed out. Server took too long to respond.''
      else if str_includes (err_message e) ''Failed to fetch''
              \<or> str_includes (err_message e) ''NetworkError''
        then ''Connection error: Could not reach the server. Please check if the server is running.''
      else if str_includes (err_message e) ''JSON''
        then ''Server response error: Invalid data format received.''
      else if err_message e \<noteq> []
        then ''Mode switch error: '' @ err_message e
      else ''Could not switch execution mode.'')"

text \<open>
  The \<open>try\<close> block from the settled fetch on (lines 1615 to 1649): a rejected fetch
  (network failure, or the abort of the 10 second timer) throws; a non-OK response
  throws an \<open>Error\<close> made from the body's \<open>detail\<close>; an OK response with
  \<open>status === 'success'\<close> updates the mode display and starts a resync; any other OK
  response shows the backend's reason.
\<close>

definition switch_response :: "host \<Rightarrow> fetch_result \<Rightarrow> stmt" where
  "switch_response h r st =
     (case r of
        Rejected e \<Rightarrow> (Some e, st)
      | Response s b \<Rightarrow>
          if \<not> ok s then
            (let errorData =
                   (case b of
                      Inl e \<Rightarrow> JObj [(''detail'', JStr (''HTTP '' @ js_to_string h (JNum (real s))))]
                    | Inr v \<Rightarrow> v)
             in if nullish errorData then (Some (type_error h), st)
                else (Some (JsError ''Error''
                        (js_to_string h
                           (js_or (get_prop errorData ''detail'')
                              (JStr (''Server error: '' @ js_to_string h (JNum (real s))))))), st))
          else
            (case b of
               Inl e \<Rightarrow> (Some e, st)
             | Inr data \<Rightarrow>
                 if nullish data then (Some (type_error h), st)
                 else if get_prop data ''status'' = JStr ''success'' then
                   (case updateExecutionModeUI h (get_prop data ''mode'')
                           (get_prop data ''data_status'') st of
                      (Some e, st1) \<Rightarrow> (Some e, st1)
                    | (None, st1) \<Rightarrow> (None, st1\<lparr>resyncs := Suc (resyncs st1)\<rparr>))
                 else
                   (None, st\<lparr>alerts := alerts st @
                      [''Mode switch blocked: '' @
                         js_to_string h
                           (js_or (get_prop data ''detail'')
                              (js_or (get_prop data ''message'') (JStr ''Unknown error'')))]\<rparr>)))"

text \<open>
  The suspended activation resumes with the outcome of its fetch: the \<open>try\<close> block,
  the \<open>catch\<close> block on an exception, and the \<open>finally\<close> block in every case.
  With no activation suspended there is nothing to resume.
\<close>

definition confirmModeSwitch_resume :: "host \<Rightarrow> fetch_result \<Rightarrow> page \<Rightarrow> page" where
  "confirmModeSwitch_resume h r st =
     (case pending st of
        [] \<Rightarrow> st
      | mode # rest \<Rightarrow>
          (case switch_response h r (st\<lparr>pending := rest\<rparr>) of
             (None, st1) \<Rightarrow> st1\<lparr>isSwitchingMode := False\<rparr>
           | (Some e, st1) \<Rightarrow>
               st1\<lparr>alerts := alerts st1 @ [errorMessage e], isSwitchingMode := False\<rparr>))"

section \<open>Session reset: \<open>controlSystem('reset')\<close>\<close>

text \<open>
  Lines 1169 to 1178; \<open>confirmed\<close> is the answer to the \<open>confirm()\<close> dialog.  The
  reload that ends the function replaces the page, script state included, by a fresh
  one (\<open>initial_page\<close>); until the document is unloaded the page is as returned here.
\<close>

definition controlSystem_reset :: "bool \<Rightarrow> page \<Rightarrow> page" where
  "controlSystem_reset confirmed st =
     (if \<not> confirmed then st
      else st\<lparr>logs := JArr [], pnlHistory := [],
              alerts := alerts st @ [''Session Reset Initiated.''],
              reloads := Suc (reloads st)\<rparr>)"

section \<open>Runs of the page\<close>

text \<open>
  \<open>setChartTimeRange(range)\<close> stores the range before it touches the document.
\<close>

definition setChartTimeRange :: "string \<Rightarrow> page \<Rightarrow> page" where
  "setChartTimeRange r st = st\<lparr>chartTimeRange := r\<rparr>"

text \<open>
  The events of a session: a successful login and a logout (they set
  \<open>state.isAuth\<close>), a Sync Loop tick, a click on a mode button (with the answer a
  confirmation dialog would get), the settling of the outstanding mode-switch
  request, and the choice of a chart range.  A tick is taken as one step: the
  statements between two of its \<open>await\<close>s run without interruption, and the three
  history arrays are written in one such stretch.
\<close>

datatype page_event =
    Login
  | Logout
  | Tick tick_input
  | Click string bool
  | Settle fetch_result
  | SetRange string

fun page_step :: "host \<Rightarrow> page_event \<Rightarrow> page \<Rightarrow> page" where
  "page_step h Login st = st\<lparr>isAuth := True\<rparr>"
| "page_step h Logout st = st\<lparr>isAuth := False\<rparr>"
| "page_step h (Tick i) st = fetchSystemData h i st"
| "page_step h (Click mode confirmed) st = confirmModeSwitch mode confirmed st"
| "page_step h (Settle r) st = confirmModeSwitch_resume h r st"
| "page_step h (SetRange r) st = setChartTimeRange r st"

fun run :: "host \<Rightarrow> page_event list \<Rightarrow> page \<Rightarrow> page" where
  "run h [] st = st"
| "run h (ev # evs) st = run h evs (page_step h ev st)"

section \<open>Downsampler: \<open>getFilteredChartData\<close>\<close>

record chart_view =
  labels :: "string list"
  data :: "jsval list"
  fullTimestamps :: "string list"

text \<open>The own properties of \<open>rangeConfig\<close>: range to (points, step).\<close>

definition rangeConfig :: "(string \<times> nat \<times> nat) list" where
  "rangeConfig =
     [(''1D'', 500, 1), (''5D'', 1500, 2), (''1M'', 3000, 5),
      (''3M'', 5000, 10), (''6M'', 8000, 20), (''1Y'', 12000, 50)]"

text \<open>
  \<open>rangeConfig\<close> is an object literal, so a property read also finds the members it
  inherits from \<open>Object.prototype\<close>; each of them is truthy (a function, or the
  prototype itself) and has neither \<open>points\<close> nor \<open>step\<close>.
\<close>

definition object_prototype_members :: "string list" where
  "object_prototype_members =
     [''constructor'', ''hasOwnProperty'', ''isPrototypeOf'', ''propertyIsEnumerable'',
      ''toLocaleString'', ''toString'', ''valueOf'', ''__proto__'',
      ''__defineGetter__'', ''__defineSetter__'', ''__lookupGetter__'', ''__lookupSetter__'']"

datatype range_cfg =
    Cfg nat nat
  | Inherited

text \<open>\<open>rangeConfig[state.chartTimeRange] || rangeConfig['1D']\<close>.\<close>

definition lookup_cfg :: "string \<Rightarrow> range_cfg" where
  "lookup_cfg r =
     (case map_of rangeConfig r of
        Some (points, step) \<Rightarrow> Cfg points step
      | None \<Rightarrow>
          if r \<in> set object_prototype_members then Inherited
          else (case map_of rangeConfig ''1D'' of
                  Some (points, step) \<Rightarrow> Cfg points step
                | None \<Rightarrow> Inherited))"

text \<open>\<open>xs.filter((_, i) => i % step === 0)\<close>.\<close>

definition filter_step :: "nat \<Rightarrow> 'a list \<Rightarrow> 'a list" where
  "filter_step step xs = map snd (filter (\<lambda>p. fst p mod step = 0) (enumerate 0 xs))"

text \<open>
  The loop of \<open>mockHistoricalData\<close>: \<open>rnd k\<close> is the value of the \<open>k\<close>-th call of
  \<open>Math.random()\<close> made by this call, \<open>t\<close> the clock (\<open>now.getTime()\<close>).
\<close>

function mock_loop ::
  "host \<Rightarrow> (nat \<Rightarrow> real) \<Rightarrow> int \<Rightarrow> nat \<Rightarrow> nat \<Rightarrow> real \<Rightarrow> chart_view \<Rightarrow> chart_view" where
  "mock_loop h rnd t pointsCount i base v =
     (if i < pointsCount then
        let base' = base + (rnd i - 0.45) * 50;
            d = t - int (pointsCount - i) * 3600000
        in mock_loop h rnd t pointsCount (Suc i) base'
             \<lparr>labels = labels v @ [fmtDate h d],
              data = data v @ [JNum base'],
              fullTimestamps = fullTimestamps v @ [fmtLocale h d]\<rparr>
      else v)"
  by pat_completeness auto
termination
  by (relation "measure (\<lambda>(h, rnd, t, pointsCount, i, base, v). pointsCount - i)") auto

definition mockHistoricalData :: "host \<Rightarrow> (nat \<Rightarrow> real) \<Rightarrow> int \<Rightarrow> string \<Rightarrow> chart_view" where
  "mockHistoricalData h rnd t r =
     mock_loop h rnd t 100 0 500 \<lparr>labels = [], data = [], fullTimestamps = []\<rparr>"

text \<open>
  \<open>getFilteredChartData()\<close>.  \<open>Math.max(0, history.length - limit)\<close> is the truncating
  difference; with an inherited member for \<open>cfg\<close>, \<open>limit\<close> and \<open>step\<close> are
  \<open>undefined\<close>: the start index is NaN, which \<open>slice\<close> reads as 0, and \<open>step > 1\<close> is
  false.
\<close>

definition getFilteredChartData :: "host \<Rightarrow> (nat \<Rightarrow> real) \<Rightarrow> int \<Rightarrow> page \<Rightarrow> chart_view" where
  "getFilteredChartData h rnd t st =
     (let cfg = lookup_cfg (chartTimeRange st);
          history = pnlHistory st;
          timestamps = pnlTimestamps st;
          fullTs = pnlFullTimestamps st
      in if length history < 50 \<and> chartTimeRange st \<noteq> ''1D''
         then mockHistoricalData h rnd t (chartTimeRange st)
         else
           let startIdx = (case cfg of Cfg limit step \<Rightarrow> length history - limit | Inherited \<Rightarrow> 0);
               slicedData = drop startIdx history;
               slicedTimestamps = drop startIdx timestamps;
               slicedFullTimestamps = drop startIdx fullTs
           in (case cfg of
                 Cfg limit step \<Rightarrow>
                   if step > 1
                   then \<lparr>labels = filter_step step slicedTimestamps,
                         data = filter_step step slicedData,
                         fullTimestamps = filter_step step slicedFullTimestamps\<rparr>
                   else \<lparr>labels = slicedTimestamps, data = slicedData,
                         fullTimestamps = slicedFullTimestamps\<rparr>
               | Inherited \<Rightarrow>
                   \<lparr>labels = slicedTimestamps, data = slicedData,
                    fullTimestamps = slicedFullTimestamps\<rparr>))"

section \<open>Market Feed Reconciler: the per-instrument callback of \<open>updateMarketHeader\<close>\<close>

text \<open>
  A field of an instrument payload \<open>{instrument, ltp, close, status?, data_status?,
  bid?, ask?, open_interest?, data_source?}\<close>: absent (\<open>undefined\<close>), \<open>null\<close>, or a value
  of the field's type.
\<close>

datatype 'a field = FAbsent | FNull | FVal 'a

record market_item =
  instrument :: "string field"
  ltp :: "real field"
  close :: "real field"
  status :: "string field"
  data_status :: "string field"
  bid :: "real field"
  ask :: "real field"
  open_interest :: "real field"
  data_source :: "string field"

fun num_truthy :: "real field \<Rightarrow> bool" where
  "num_truthy (FVal x) = (x \<noteq> 0)"
| "num_truthy f = False"

fun str_truthy :: "string field \<Rightarrow> bool" where
  "str_truthy (FVal s) = (s \<noteq> [])"
| "str_truthy f = False"

fun positive :: "real field \<Rightarrow> bool" where
  "positive (FVal x) = (x > 0)"
| "positive f = False"

fun field_val :: "'a \<Rightarrow> 'a field \<Rightarrow> 'a" where
  "field_val d (FVal x) = x"
| "field_val d f = d"

text \<open>The constants the callback computes before it renders (lines 599 to 604).\<close>

definition item_symbol :: "string \<Rightarrow> market_item \<Rightarrow> string" where
  "item_symbol selected item =
     (if str_truthy (instrument item) then field_val [] (instrument item) else selected)"

definition item_ltp :: "market_item \<Rightarrow> real field" where
  "item_ltp item = (if ltp item = FVal 0 then FNull else ltp item)"

definition item_close :: "market_item \<Rightarrow> real" where
  "item_close item =
     (if num_truthy (close item) then field_val 0 (close item)
      else if num_truthy (item_ltp item) then field_val 0 (item_ltp item)
      else 1.0)"

definition item_change :: "market_item \<Rightarrow> real" where
  "item_change item =
     (case item_ltp item of FVal l \<Rightarrow> l - item_close item | FNull \<Rightarrow> 0 | FAbsent \<Rightarrow> 0)"

definition item_pct :: "host \<Rightarrow> market_item \<Rightarrow> string" where
  "item_pct h item =
     (if item_close item > 0 \<and> item_ltp item \<noteq> FNull
      then toFixed2 h (item_change item / item_close item * 100)
      else ''--'')"

definition itemStatus :: "market_item \<Rightarrow> string" where
  "itemStatus item =
     (if str_truthy (status item) then field_val [] (status item)
      else if str_truthy (data_status item) then field_val [] (data_status item)
      else ''LIVE'')"

text \<open>
  The price box of one instrument: the label (plain text, or the symbol followed by a
  badge with its class and text), the price element (the shimmering LOADING
  placeholder, or a price text; empty when the box is created), the change element
  and its style, the \<open>data-last-ltp\<close> attribute (the last price rendered), the
  \<open>stale-text\<close> class, the flash class, the pulse colour and the commodity line.
\<close>

datatype label_content = LabelText string | LabelBadge string string string

datatype ltp_content = Empty | Shimmer | PriceText string

record price_box =
  labelEl :: label_content
  ltpEl :: ltp_content
  chgEl :: string
  chgBackground :: string
  chgColor :: string
  ltpColor :: string
  dataLastLtp :: "real option"
  staleText :: bool
  flashClass :: "string option"
  pulseBackground :: string
  extraInfo :: "string option"

definition new_box :: price_box where
  "new_box = \<lparr>labelEl = LabelText [], ltpEl = Empty, chgEl = [], chgBackground = [],
     chgColor = [], ltpColor = [], dataLastLtp = None, staleText = False,
     flashClass = None, pulseBackground = [], extraInfo = None\<rparr>"

definition status_treatment :: "string \<Rightarrow> market_item \<Rightarrow> price_box \<Rightarrow> price_box" where
  "status_treatment selected item box =
     (let symbol = item_symbol selected item; st = itemStatus item in
      if st = ''STALE'' \<or> st = ''MARKET_CLOSED'' then
        box\<lparr>staleText := True, pulseBackground := ''var(--warning)'',
            labelEl := LabelBadge symbol ''badge warning'' st\<rparr>
      else if st = ''VIRTUAL'' then
        box\<lparr>staleText := False, pulseBackground := ''var(--accent)'',
            labelEl := LabelBadge symbol ''badge'' ''VIRTUAL''\<rparr>
      else
        box\<lparr>staleText := False, pulseBackground := ''var(--success)'',
            labelEl :=
              (if selected = ''COMMODITY'' \<and> str_truthy (data_source item)
                  \<and> data_source item \<noteq> FVal ''CACHE''
               then LabelBadge symbol ''badge success''
                      (''LIVE '' @ field_val [] (data_source item))
               else LabelText symbol)\<rparr>)"

definition commodity_extra :: "host \<Rightarrow> string \<Rightarrow> market_item \<Rightarrow> price_box \<Rightarrow> price_box" where
  "commodity_extra h selected item box =
     (if selected = ''COMMODITY'' \<and> num_truthy (bid item) \<and> num_truthy (ask item) then
        let bidAsk = (if positive (bid item) \<and> positive (ask item)
                      then ''B:'' @ localeIN h (field_val 0 (bid item)) @ '' A:''
                             @ localeIN h (field_val 0 (ask item))
                      else []);
            oiText = (if positive (open_interest item)
                      then ''OI:'' @ localeIN h (field_val 0 (open_interest item)) else [])
        in box\<lparr>extraInfo := Some
              (if bidAsk \<noteq> [] \<and> oiText \<noteq> [] then bidAsk @ '' | '' @ oiText
               else bidAsk @ oiText)\<rparr>
      else box)"

text \<open>
  The callback on one item and its box (lines 599 to 665); \<open>selected\<close> is
  \<open>state.selectedMarket\<close>.
\<close>

definition render_item :: "host \<Rightarrow> string \<Rightarrow> market_item \<Rightarrow> price_box \<Rightarrow> price_box" where
  "render_item h selected item box =
     (case item_ltp item of
        FVal l \<Rightarrow>
          if itemStatus item = ''LOADING'' then
            box\<lparr>ltpEl := Shimmer, chgEl := ''--%'',
                chgBackground := ''rgba(255,255,255,0.05)'',
                labelEl := LabelText (item_symbol selected item)\<rparr>
          else
            let oldLtp = (case dataLastLtp box of Some x \<Rightarrow> x | None \<Rightarrow> 0);
                box1 = (if oldLtp > 0 \<and> l \<noteq> oldLtp
                        then box\<lparr>flashClass :=
                               Some (if l > oldLtp then ''price-flash-up'' else ''price-flash-down'')\<rparr>
                        else box);
                box2 = status_treatment selected item (box1\<lparr>dataLastLtp := Some l\<rparr>);
                up = (item_change item \<ge> 0);
                box3 = box2\<lparr>ltpEl := PriceText (localeIN2 h l),
                            chgEl := (if up then ''+'' else []) @ item_pct h item @ ''%'',
                            chgColor := (if up then ''var(--success)'' else ''var(--danger)''),
                            chgBackground :=
                              (if up then ''rgba(0,255,157,0.1)'' else ''rgba(255,62,62,0.1)''),
                            ltpColor := (if up then ''var(--success)'' else ''var(--danger)'')\<rparr>
            in commodity_extra h selected item box3
      | f \<Rightarrow>
          box\<lparr>ltpEl := Shimmer, chgEl := ''--%'',
              chgBackground := ''rgba(255,255,255,0.05)'',
              labelEl := LabelText (item_symbol selected item)\<rparr>)"

section \<open>Notions used in the statements\<close>

text \<open>The three parallel arrays of the Time-Series Buffer.\<close>

definition buffers_of :: "page \<Rightarrow> jsval list \<times> string list \<times> string list" where
  "buffers_of st = (pnlHistory st, pnlTimestamps st, pnlFullTimestamps st)"

definition aligned :: "page \<Rightarrow> bool" where
  "aligned st =
     (length (pnlTimestamps st) = length (pnlHistory st)
      \<and> length (pnlFullTimestamps st) = length (pnlHistory st))"

text \<open>
  A tick reaches the pushes of lines 456 to 458 when it runs (the session is
  authenticated), no statement of lines 424 to 448 throws, and \<open>state.metrics\<close> is
  truthy then.
\<close>

definition tick_appends :: "host \<Rightarrow> tick_input \<Rightarrow> page \<Rightarrow> bool" where
  "tick_appends h i st =
     (isAuth st \<and> fst (seq_try (sync_body h i) st) = None
      \<and> truthy (metrics (snd (seq_try (sync_body h i) st))))"

text \<open>
  How a read endpoint's fetch ended.  \<open>decoded\<close> is the body an OK response delivers;
  a fetch that delivers none has failed.  A failed fetch throws when the promise is
  rejected (network failure) or when an OK body does not decode; a non-OK response
  does not throw.  The metrics statement also throws on an OK body that is \<open>null\<close>.
\<close>

definition rejected :: "fetch_result \<Rightarrow> bool" where
  "rejected r = (case r of Rejected e \<Rightarrow> True | Response s b \<Rightarrow> False)"

definition decoded :: "fetch_result \<Rightarrow> jsval option" where
  "decoded r =
     (case r of
        Rejected e \<Rightarrow> None
      | Response s b \<Rightarrow> if ok s then (case b of Inl e \<Rightarrow> None | Inr v \<Rightarrow> Some v) else None)"

definition throws :: "fetch_result \<Rightarrow> bool" where
  "throws r =
     (case r of
        Rejected e \<Rightarrow> True
      | Response s b \<Rightarrow> ok s \<and> (case b of Inl e \<Rightarrow> True | Inr v \<Rightarrow> False))"

definition throws_metrics :: "fetch_result \<Rightarrow> bool" where
  "throws_metrics r =
     (throws r \<or> (case decoded r of Some v \<Rightarrow> nullish v | None \<Rightarrow> False))"

definition no_throw :: "tick_input \<Rightarrow> bool" where
  "no_throw i =
     (\<not> throws_metrics (mRes i) \<and> \<not> throws (tRes i) \<and> \<not> throws (lRes i)
      \<and> \<not> throws (aRes i) \<and> \<not> throws (sRes i) \<and> \<not> throws (dRes i))"

text \<open>What a field holds after its statement: the decoded body, or what it held.\<close>

definition applied :: "fetch_result \<Rightarrow> jsval \<Rightarrow> jsval" where
  "applied r old = (case decoded r of Some v \<Rightarrow> v | None \<Rightarrow> old)"

text \<open>The metrics object line 431 stores for an OK body: \<open>data.metrics || data\<close>.\<close>

definition applied_metrics :: "fetch_result \<Rightarrow> jsval \<Rightarrow> jsval" where
  "applied_metrics r old =
     (case decoded r of Some v \<Rightarrow> js_or (get_prop v ''metrics'') v | None \<Rightarrow> old)"

text \<open>
  A value without the two properties that the display code writes into
  \<open>state.metrics\<close>: \<open>total_capital\<close> (the \<open>ACCOUNT_UPDATE\<close> listener) and
  \<open>execution_mode\<close> (\<open>updateExecutionModeUI\<close>).
\<close>

fun without_props :: "string list \<Rightarrow> jsval \<Rightarrow> jsval" where
  "without_props ks (JObj kvs) = JObj (filter (\<lambda>p. fst p \<notin> set ks) kvs)"
| "without_props ks v = v"

definition fetched_part :: "jsval \<Rightarrow> jsval" where
  "fetched_part m = without_props [''total_capital'', ''execution_mode''] m"


section \<open>The earlier revision of the Sync Loop\<close>

text \<open>
  \<open>fetchSystemData\<close> of \<open>static/app.js\<close> (lines 395 to 446): the metrics body is stored
  as it is, and the dashboard refresh of that revision writes nothing into \<open>state\<close>;
  its \<open>ACCOUNT_UPDATE\<close> listener (lines 341 to 349) writes \<open>total_capital\<close> only.  The
  history statements are the same, so \<open>track_pnl\<close> stands for both.
\<close>

definition account_update_listener_static :: "jsval \<Rightarrow> page \<Rightarrow> page" where
  "account_update_listener_static v st =
     (if truthy v \<and> get_prop v ''balance'' \<noteq> JUndefined \<and> truthy (metrics st)
      then st\<lparr>metrics := setp (metrics st) ''total_capital'' (get_prop v ''balance'')\<rparr>
      else st)"

definition store_balance_static :: "host \<Rightarrow> jsval \<Rightarrow> page \<Rightarrow> page" where
  "store_balance_static h v st =
     (let st1 = st\<lparr>account_update := v\<rparr>;
          st2 = st1\<lparr>accountEvents := accountEvents st1 @ [v]\<rparr>
      in if accountListener h then account_update_listener_static v st2 else st2)"

definition sync_body_static :: "host \<Rightarrow> tick_input \<Rightarrow> stmt list" where
  "sync_body_static h i =
     [await_fetch (mRes i), await_fetch (tRes i), await_fetch (lRes i), await_fetch (aRes i),
      apply_json (mRes i) (\<lambda>v st. st\<lparr>metrics := v\<rparr>),
      apply_json (tRes i) (\<lambda>v st. st\<lparr>trades := v\<rparr>),
      apply_json (lRes i) (\<lambda>v st. st\<lparr>logs := v\<rparr>),
      apply_json (aRes i) (store_balance_static h),
      await_fetch (sRes i), await_fetch (dRes i),
      apply_json (sRes i) (\<lambda>v st. st\<lparr>agentV2Status := v\<rparr>),
      apply_json (dRes i) (\<lambda>v st. st\<lparr>auditTrail := v\<rparr>)]"

definition fetchSystemData_static :: "host \<Rightarrow> tick_input \<Rightarrow> page \<Rightarrow> page" where
  "fetchSystemData_static h i st =
     (if \<not> isAuth st then st else snd (seq_try (sync_body_static h i @ [track_pnl h i]) st))"

definition no_throw_static :: "tick_input \<Rightarrow> bool" where
  "no_throw_static i =
     (\<not> throws (mRes i) \<and> \<not> throws (tRes i) \<and> \<not> throws (lRes i)
      \<and> \<not> throws (aRes i) \<and> \<not> throws (sRes i) \<and> \<not> throws (dRes i))"

definition tick_appends_static :: "host \<Rightarrow> tick_input \<Rightarrow> page \<Rightarrow> bool" where
  "tick_appends_static h i st =
     (isAuth st \<and> fst (seq_try (sync_body_static h i) st) = None
      \<and> truthy (metrics (snd (seq_try (sync_body_static h i) st))))"

fun run_static :: "host \<Rightarrow> tick_input list \<Rightarrow> page \<Rightarrow> page" where
  "run_static h [] st = st"
| "run_static h (i # is) st = run_static h is (fetchSystemData_static h i st)"

section \<open>Sample inputs\<close>

definition sample_host :: host where
  "sample_host = \<lparr>
     toStr = (\<lambda>v. ''[value]''), typeErrorMessage = ''Cannot read properties of null'',
     fmtFull = (\<lambda>t. ''Nov 3, 2026, 10:00:00''), fmtCompact = (\<lambda>t. ''10:00:00''),
     fmtDate = (\<lambda>t. ''Nov 3''), fmtLocale = (\<lambda>t. ''11/3/2026, 10:00:00 AM''),
     toFixed2 = (\<lambda>x. ''0.00''), localeIN = (\<lambda>x. ''1''), localeIN2 = (\<lambda>x. ''1.00''),
     modeGrid = True, accountListener = True \<rparr>"

definition sample_metrics :: jsval where
  "sample_metrics = JObj [(''daily_pnl'', JNum 5), (''execution_mode'', JStr ''MOCK'')]"

definition sample_tick :: tick_input where
  "sample_tick = \<lparr>
     mRes = Response 200 (Inr (JObj [(''metrics'', sample_metrics)])),
     tRes = Response 200 (Inr (JArr [JStr ''T1''])),
     lRes = Response 200 (Inr (JArr [JStr ''L1''])),
     aRes = Response 200 (Inr (JObj [(''balance'', JNum 1000)])),
     sRes = Response 200 (Inr (JObj [(''Execution'', JStr ''RUNNING'')])),
     dRes = Response 200 (Inr (JArr [JStr ''A1''])),
     now = 0, chartRefresh = None \<rparr>"

definition sample_page :: page where
  "sample_page = initial_page\<lparr>isAuth := True, metrics := sample_metrics\<rparr>"



definition full_page :: page where
  "full_page = sample_page\<lparr>pnlHistory := replicate 900 (JNum 1),
     pnlTimestamps := replicate 900 ''09:00:00'',
     pnlFullTimestamps := replicate 900 ''Nov 3, 2026, 09:00:00''\<rparr>"

text \<open>The invariant of the Time-Series Buffer.\<close>

definition buffer_inv :: "page \<Rightarrow> bool" where
  "buffer_inv st = (aligned st \<and> length (pnlHistory st) \<le> MAX_HISTORY)"




text \<open>
  A buffer of 60 points viewed at \<open>5D\<close>, a fresh session viewed at \<open>3M\<close>, and a
  buffer of 600 points viewed at a given range.
\<close>

definition sixty_page :: page where
  "sixty_page = sample_page\<lparr>chartTimeRange := ''5D'',
     pnlHistory := replicate 60 (JNum 1),
     pnlTimestamps := replicate 60 ''09:00:00'',
     pnlFullTimestamps := replicate 60 ''Nov 3, 2026, 09:00:00''\<rparr>"

definition fresh_3M_page :: page where
  "fresh_3M_page = sample_page\<lparr>chartTimeRange := ''3M''\<rparr>"

definition long_page :: "string \<Rightarrow> page" where
  "long_page r = sample_page\<lparr>chartTimeRange := r,
     pnlHistory := replicate 600 (JNum 1),
     pnlTimestamps := replicate 600 ''09:00:00'',
     pnlFullTimestamps := replicate 600 ''Nov 3, 2026, 09:00:00''\<rparr>"

text \<open>An instrument payload with \<open>ltp = 0\<close>, and the same with a price.\<close>

definition zero_ltp_item :: market_item where
  "zero_ltp_item = \<lparr>instrument = FVal ''NIFTY'', ltp = FVal 0, close = FVal 22000,
     status = FVal ''LIVE'', data_status = FAbsent, bid = FAbsent, ask = FAbsent,
     open_interest = FAbsent, data_source = FAbsent\<rparr>"

definition live_item :: market_item where
  "live_item = zero_ltp_item\<lparr>ltp := FVal 22110\<rparr>"


section \<open>Lemmas about the statements of a tick\<close>

lemma seq_try_append:
  "seq_try (xs @ ys) st =
     (case seq_try xs st of (Some e, st') \<Rightarrow> (Some e, st') | (None, st') \<Rightarrow> seq_try ys st')"
  by (induction xs arbitrary: st) (auto split: prod.splits option.splits)

lemma uemu_shape:
  "\<exists>hm hd mt. snd (updateExecutionModeUI h m d st) =
     st\<lparr>metrics := mt, headerMode := hm, headerData := hd\<rparr>"
proof (cases "modeGrid h \<and> \<not> is_string m")
  case True
  have "snd (updateExecutionModeUI h m d st) =
      st\<lparr>metrics := metrics st, headerMode := m, headerData := headerData st\<rparr>"
    using True by (simp add: updateExecutionModeUI_def Let_def)
  then show ?thesis by blast
next
  case False
  have "snd (updateExecutionModeUI h m d st) =
      st\<lparr>metrics := (if truthy (metrics st) then setp (metrics st) ''execution_mode'' m
                     else metrics st),
         headerMode := m, headerData := feed_label m d (headerData st)\<rparr>"
    using False by (auto simp add: updateExecutionModeUI_def Let_def)
  then show ?thesis by blast
qed

lemma udu_shape:
  "\<exists>hm hd mt. updateDashboardUI h st = st\<lparr>metrics := mt, headerMode := hm, headerData := hd\<rparr>"
proof (cases "truthy (metrics st) \<and> truthy (executionMode st)")
  case True
  then show ?thesis using uemu_shape[of h "executionMode st" "dataEngineStatus st" st]
    by (simp add: updateDashboardUI_def)
next
  case False
  have "updateDashboardUI h st =
      st\<lparr>metrics := metrics st, headerMode := headerMode st, headerData := headerData st\<rparr>"
    using False by (auto simp add: updateDashboardUI_def)
  then show ?thesis by blast
qed

lemma listener_shape:
  "\<exists>hm hd mt. account_update_listener h v st =
     st\<lparr>metrics := mt, headerMode := hm, headerData := hd\<rparr>"
proof (cases "truthy v \<and> get_prop v ''balance'' \<noteq> JUndefined")
  case False
  have "account_update_listener h v st =
      st\<lparr>metrics := metrics st, headerMode := headerMode st, headerData := headerData st\<rparr>"
    using False by (auto simp add: account_update_listener_def)
  then show ?thesis by blast
next
  case True
  define s1 where "s1 = (if truthy (metrics st)
           then st\<lparr>metrics := setp (metrics st) ''total_capital'' (get_prop v ''balance'')\<rparr>
           else st)"
  obtain hm hd mt where u: "updateDashboardUI h s1 = s1\<lparr>metrics := mt, headerMode := hm, headerData := hd\<rparr>"
    using udu_shape[of h s1] by blast
  have "account_update_listener h v st = updateDashboardUI h s1"
    using True by (simp add: account_update_listener_def s1_def)
  then have "account_update_listener h v st = st\<lparr>metrics := mt, headerMode := hm, headerData := hd\<rparr>"
    using u by (simp add: s1_def split: if_splits)
  then show ?thesis by blast
qed

lemma store_balance_shape:
  "\<exists>hm hd mt. store_balance h v st =
     st\<lparr>metrics := mt, account_update := v, headerMode := hm, headerData := hd,
        accountEvents := accountEvents st @ [v]\<rparr>"
proof (cases "accountListener h")
  case False
  have "store_balance h v st =
     st\<lparr>metrics := metrics st, account_update := v, headerMode := headerMode st,
        headerData := headerData st, accountEvents := accountEvents st @ [v]\<rparr>"
    using False by (simp add: store_balance_def Let_def)
  then show ?thesis by blast
next
  case True
  define s2 where "s2 = st\<lparr>account_update := v, accountEvents := accountEvents st @ [v]\<rparr>"
  obtain hm hd mt where u:
    "account_update_listener h v s2 = s2\<lparr>metrics := mt, headerMode := hm, headerData := hd\<rparr>"
    using listener_shape[of h v s2] by blast
  have "store_balance h v st = account_update_listener h v s2"
    using True by (simp add: store_balance_def Let_def s2_def)
  then have "store_balance h v st =
     st\<lparr>metrics := mt, account_update := v, headerMode := hm, headerData := hd,
        accountEvents := accountEvents st @ [v]\<rparr>"
    using u by (simp add: s2_def)
  then show ?thesis by blast
qed

lemma uemu_buffers: "buffers_of (snd (updateExecutionModeUI h m d st)) = buffers_of st"
proof -
  obtain hm hd mt where "snd (updateExecutionModeUI h m d st) =
      st\<lparr>metrics := mt, headerMode := hm, headerData := hd\<rparr>"
    using uemu_shape by blast
  then show ?thesis by (simp add: buffers_of_def)
qed

lemma udu_buffers: "buffers_of (updateDashboardUI h st) = buffers_of st"
proof -
  obtain hm hd mt where "updateDashboardUI h st = st\<lparr>metrics := mt, headerMode := hm, headerData := hd\<rparr>"
    using udu_shape by blast
  then show ?thesis by (simp add: buffers_of_def)
qed

lemma store_balance_buffers: "buffers_of (store_balance h v st) = buffers_of st"
proof -
  obtain hm hd mt where "store_balance h v st =
     st\<lparr>metrics := mt, account_update := v, headerMode := hm, headerData := hd,
        accountEvents := accountEvents st @ [v]\<rparr>"
    using store_balance_shape by blast
  then show ?thesis by (simp add: buffers_of_def)
qed

lemma await_fetch_same: "snd (await_fetch r st) = st"
  by (simp add: await_fetch_def split: fetch_result.splits)

lemma apply_json_frame:
  "(\<And>v st. f (store v st) = f st) \<Longrightarrow> f (snd (apply_json r store st)) = f st"
  by (simp add: apply_json_def split: fetch_result.splits sum.splits)

lemma apply_metrics_buffers: "buffers_of (snd (apply_metrics h r st)) = buffers_of st"
  by (simp add: apply_metrics_def Let_def buffers_of_def split: fetch_result.splits sum.splits)

lemma seq_try_frame:
  "\<forall>s\<in>set ss. \<forall>st. f (snd (s st)) = f st \<Longrightarrow> f (snd (seq_try ss st)) = f st"
proof (induction ss arbitrary: st)
  case Nil
  then show ?case by simp
next
  case (Cons s ss)
  have a: "f (snd (s st)) = f st" using Cons.prems by simp
  show ?case
  proof (cases "s st")
    case (Pair e st')
    then show ?thesis using a Cons.IH[of st'] Cons.prems by (cases e) auto
  qed
qed

lemma sync_body_buffers: "buffers_of (snd (seq_try (sync_body h i) st)) = buffers_of st"
  apply (rule seq_try_frame)
  apply (auto simp: sync_body_def await_fetch_same apply_metrics_buffers
      store_balance_buffers intro!: apply_json_frame)
  apply (simp_all add: buffers_of_def)
  done

text \<open>The buffers after a tick, in terms of the tick's own intermediate page.\<close>

lemma tick_no_append: "\<not> tick_appends h i st \<Longrightarrow> buffers_of (fetchSystemData h i st) = buffers_of st"
proof -
  assume na: "\<not> tick_appends h i st"
  show ?thesis
  proof (cases "isAuth st")
    case False
    then show ?thesis by (simp add: fetchSystemData_def)
  next
    case True
    obtain e s1 where s1: "seq_try (sync_body h i) st = (e, s1)" by (cases "seq_try (sync_body h i) st")
    have b1: "buffers_of s1 = buffers_of st" using sync_body_buffers[of h i st] s1 by simp
    show ?thesis
    proof (cases e)
      case (Some err)
      then show ?thesis using True s1 b1
        by (simp add: fetchSystemData_def tick_body_def seq_try_append)
    next
      case None
      then have "\<not> truthy (metrics s1)" using na True s1 by (simp add: tick_appends_def)
      then show ?thesis using True s1 b1 None
        by (simp add: fetchSystemData_def tick_body_def seq_try_append track_pnl_def udu_buffers)
    qed
  qed
qed

lemma get_prop_assign_other:
  "k' \<noteq> k \<Longrightarrow> map_of (assign_alist k v kvs) k' = map_of kvs k'"
  by (induction kvs) auto

lemma get_prop_setp_other: "k' \<noteq> k \<Longrightarrow> get_prop (setp m k v) k' = get_prop m k'"
  by (cases m) (simp_all add: get_prop_assign_other)

lemma udu_daily: "get_prop (metrics (updateDashboardUI h st)) ''daily_pnl'' = get_prop (metrics st) ''daily_pnl''"
  by (simp add: updateDashboardUI_def updateExecutionModeUI_def Let_def get_prop_setp_other)

lemma tick_append:
  assumes "tick_appends h i st"
  shows "buffers_of (fetchSystemData h i st) =
     (if length (pnlHistory st) < MAX_HISTORY
      then (pnlHistory st @ [get_prop (metrics (fetchSystemData h i st)) ''daily_pnl''],
            pnlTimestamps st @ [fmtCompact h (now i)],
            pnlFullTimestamps st @ [fmtFull h (now i)])
      else (tl (pnlHistory st @ [get_prop (metrics (fetchSystemData h i st)) ''daily_pnl'']),
            tl (pnlTimestamps st @ [fmtCompact h (now i)]),
            tl (pnlFullTimestamps st @ [fmtFull h (now i)])))"
proof -
  obtain e s1 where s1: "seq_try (sync_body h i) st = (e, s1)" by (cases "seq_try (sync_body h i) st")
  have e: "e = None" and t: "truthy (metrics s1)" and a: "isAuth st"
    using assms s1 by (simp_all add: tick_appends_def)
  have b1: "buffers_of s1 = buffers_of st" using sync_body_buffers[of h i st] s1 by simp
  obtain e2 s2 where s2: "track_pnl h i s1 = (e2, s2)" by (cases "track_pnl h i s1")
  have m2: "metrics s2 = metrics s1" using s2 t by (auto simp: track_pnl_def Let_def)
  have fin: "fetchSystemData h i st = (case e2 of Some x \<Rightarrow> s2 | None \<Rightarrow> updateDashboardUI h s2)"
    using a s1 e s2 by (simp add: fetchSystemData_def tick_body_def seq_try_append split: option.splits)
  have d: "get_prop (metrics (fetchSystemData h i st)) ''daily_pnl'' = get_prop (metrics s1) ''daily_pnl''"
    using fin m2 by (simp add: udu_daily split: option.splits)
  have bf: "buffers_of (fetchSystemData h i st) = buffers_of s2"
    using fin by (simp add: udu_buffers split: option.splits)
  have "buffers_of s2 =
     (if length (pnlHistory s1) < MAX_HISTORY
      then (pnlHistory s1 @ [get_prop (metrics s1) ''daily_pnl''],
            pnlTimestamps s1 @ [fmtCompact h (now i)],
            pnlFullTimestamps s1 @ [fmtFull h (now i)])
      else (tl (pnlHistory s1 @ [get_prop (metrics s1) ''daily_pnl'']),
            tl (pnlTimestamps s1 @ [fmtCompact h (now i)]),
            tl (pnlFullTimestamps s1 @ [fmtFull h (now i)])))"
    using s2 t by (auto simp: track_pnl_def Let_def buffers_of_def)
  then show ?thesis using bf d b1 by (simp add: buffers_of_def)
qed

lemma switch_response_buffers: "buffers_of (snd (switch_response h r st)) = buffers_of st"
proof -
  have u: "\<And>m d e s. updateExecutionModeUI h m d st = (e, s) \<Longrightarrow> buffers_of s = buffers_of st"
    using uemu_buffers by (metis snd_conv)
  show ?thesis
    unfolding switch_response_def
    by (auto simp: Let_def buffers_of_def dest!: u
        split: fetch_result.splits sum.splits prod.splits option.splits)
qed

lemma resume_buffers: "buffers_of (confirmModeSwitch_resume h r st) = buffers_of st"
proof (cases "pending st")
  case Nil
  then show ?thesis by (simp add: confirmModeSwitch_resume_def)
next
  case (Cons m rest)
  obtain e s1 where s1: "switch_response h r (st\<lparr>pending := rest\<rparr>) = (e, s1)"
    by (cases "switch_response h r (st\<lparr>pending := rest\<rparr>)")
  have "buffers_of s1 = buffers_of (st\<lparr>pending := rest\<rparr>)"
    using switch_response_buffers[of h r "st\<lparr>pending := rest\<rparr>"] s1 by simp
  then have "buffers_of s1 = buffers_of st" by (simp add: buffers_of_def)
  then show ?thesis using Cons s1
    by (cases e) (simp_all add: confirmModeSwitch_resume_def buffers_of_def)
qed

lemma click_buffers: "buffers_of (confirmModeSwitch m c st) = buffers_of st"
  by (simp add: confirmModeSwitch_def buffers_of_def)


lemma buffer_inv_cong: "buffers_of st' = buffers_of st \<Longrightarrow> buffer_inv st' = buffer_inv st"
  by (simp add: buffers_of_def buffer_inv_def aligned_def)

lemma tick_buffer_inv: "buffer_inv st \<Longrightarrow> buffer_inv (fetchSystemData h i st)"
proof (cases "tick_appends h i st")
  case False
  assume "buffer_inv st"
  then show ?thesis using tick_no_append[OF False] buffer_inv_cong by blast
next
  case True
  assume inv: "buffer_inv st"
  show ?thesis
    using tick_append[OF True] inv
    by (auto simp: buffers_of_def buffer_inv_def aligned_def split: if_splits)
qed

lemma step_buffer_inv: "buffer_inv st \<Longrightarrow> buffer_inv (page_step h ev st)"
proof (cases ev)
  case (Tick i)
  assume "buffer_inv st"
  then show ?thesis using Tick by (simp add: tick_buffer_inv)
next
  case (Click m c)
  assume "buffer_inv st"
  then show ?thesis using Click buffer_inv_cong[OF click_buffers] by simp
next
  case (Settle r)
  assume "buffer_inv st"
  then show ?thesis using Settle buffer_inv_cong[OF resume_buffers] by simp
qed (simp_all add: buffer_inv_def aligned_def setChartTimeRange_def)

lemma run_buffer_inv: "buffer_inv st \<Longrightarrow> buffer_inv (run h evs st)"
  by (induction evs arbitrary: st) (simp_all add: step_buffer_inv)

lemma initial_buffer_inv: "buffer_inv initial_page"
  by (simp add: buffer_inv_def aligned_def initial_page_def)

subsection \<open>Statements of a tick\<close>

lemma seq_try_all_none:
  "(\<And>s st. s \<in> set ss \<Longrightarrow> fst (s st) = None) \<Longrightarrow> fst (seq_try ss st) = None"
proof (induction ss arbitrary: st)
  case Nil
  then show ?case by simp
next
  case (Cons s ss)
  have "fst (s st) = None" using Cons.prems by simp
  then obtain st' where "s st = (None, st')" by (cases "s st") auto
  then show ?case using Cons.IH[of st'] Cons.prems by simp
qed

lemma seq_try_some:
  "s \<in> set ss \<Longrightarrow> (\<And>st. fst (s st) \<noteq> None) \<Longrightarrow> fst (seq_try ss st) \<noteq> None"
proof (induction ss arbitrary: st)
  case Nil
  then show ?case by simp
next
  case (Cons a ss)
  show ?case
  proof (cases "a st")
    case (Pair e st')
    show ?thesis
    proof (cases e)
      case (Some x)
      then show ?thesis using Pair by simp
    next
      case None
      then have "a \<noteq> s" using Pair Cons.prems(2)[of st] by auto
      then have "s \<in> set ss" using Cons.prems(1) by auto
      then show ?thesis using Cons.IH[of st'] Cons.prems(2) Pair None by simp
    qed
  qed
qed

lemma seq_try_field:
  assumes A: "\<forall>s\<in>set A. \<forall>st. f (snd (s st)) = f st"
    and B: "\<forall>s\<in>set B. \<forall>st. f (snd (s st)) = f st"
  shows "f (snd (seq_try (A @ s # B) st)) =
     (if fst (seq_try A st) = None then f (snd (s (snd (seq_try A st)))) else f st)"
proof (cases "seq_try A st")
  case (Pair e stA)
  have fA: "f stA = f st" using seq_try_frame[of A f st] A Pair by simp
  show ?thesis
  proof (cases e)
    case (Some x)
    then show ?thesis using Pair fA by (simp add: seq_try_append)
  next
    case None
    show ?thesis
    proof (cases "s stA")
      case (Pair e' st')
      show ?thesis
      proof (cases e')
        case (Some x)
        then show ?thesis using \<open>seq_try A st = (e, stA)\<close> None Pair by (simp add: seq_try_append)
      next
        case None': None
        have "f (snd (seq_try B st')) = f st'" using seq_try_frame[of B f st'] B by simp
        then show ?thesis using \<open>seq_try A st = (e, stA)\<close> None Pair None'
          by (simp add: seq_try_append)
      qed
    qed
  qed
qed

lemma await_fetch_fst: "(fst (await_fetch r st) = None) = (\<not> rejected r)"
  by (simp add: await_fetch_def rejected_def split: fetch_result.splits)

lemma apply_json_fst: "(fst (apply_json r store st) = None) = (\<not> throws r)"
  by (simp add: apply_json_def throws_def split: fetch_result.splits sum.splits)

lemma apply_json_snd:
  "snd (apply_json r store st) = (case decoded r of Some v \<Rightarrow> store v st | None \<Rightarrow> st)"
  by (simp add: apply_json_def decoded_def split: fetch_result.splits sum.splits)

lemma apply_metrics_fst: "(fst (apply_metrics h r st) = None) = (\<not> throws_metrics r)"
  by (auto simp add: apply_metrics_def throws_metrics_def throws_def decoded_def Let_def
      split: fetch_result.splits sum.splits)

lemma apply_metrics_shape:
  "\<exists>md de em. snd (apply_metrics h r st) =
     st\<lparr>metrics := (if throws_metrics r then metrics st else applied_metrics r (metrics st)),
        market_data := md, dataEngineStatus := de, executionMode := em\<rparr>"
proof (cases "decoded r")
  case None
  have "snd (apply_metrics h r st) = st"
    using None by (auto simp add: apply_metrics_def decoded_def split: fetch_result.splits sum.splits if_splits)
  moreover have "applied_metrics r (metrics st) = metrics st"
    using None by (simp add: applied_metrics_def)
  ultimately have "snd (apply_metrics h r st) =
     st\<lparr>metrics := (if throws_metrics r then metrics st else applied_metrics r (metrics st)),
        market_data := market_data st, dataEngineStatus := dataEngineStatus st,
        executionMode := executionMode st\<rparr>"
    by simp
  then show ?thesis by blast
next
  case (Some v)
  then obtain s where r: "r = Response s (Inr v)" and oks: "ok s"
    by (auto simp add: decoded_def split: fetch_result.splits sum.splits if_splits)
  show ?thesis
  proof (cases "nullish v")
    case True
    have "snd (apply_metrics h r st) = st" using r oks True by (simp add: apply_metrics_def)
    moreover have "throws_metrics r" using Some True by (simp add: throws_metrics_def)
    ultimately have "snd (apply_metrics h r st) =
       st\<lparr>metrics := (if throws_metrics r then metrics st else applied_metrics r (metrics st)),
        market_data := market_data st, dataEngineStatus := dataEngineStatus st,
        executionMode := executionMode st\<rparr>"
      by simp
    then show ?thesis by blast
  next
    case False
    have nt: "\<not> throws_metrics r"
      using Some False r oks by (simp add: throws_metrics_def throws_def)
    have am: "applied_metrics r (metrics st) = js_or (get_prop v ''metrics'') v"
      using Some by (simp add: applied_metrics_def)
    have "\<exists>md de em. snd (apply_metrics h r st) =
       st\<lparr>metrics := js_or (get_prop v ''metrics'') v,
        market_data := md, dataEngineStatus := de, executionMode := em\<rparr>"
      using r oks False
      apply (simp add: apply_metrics_def Let_def)
      apply (intro conjI impI)
         apply (rule exI[of _ "get_prop v ''market_data''"], rule exI[of _ "get_prop v ''data_engine_status''"], rule exI, simp)
        apply (rule exI[of _ "get_prop v ''market_data''"], rule exI[of _ "dataEngineStatus st"], rule exI, simp)
       apply (rule exI[of _ "market_data st"], rule exI[of _ "get_prop v ''data_engine_status''"], rule exI, simp)
      apply (rule exI[of _ "market_data st"], rule exI[of _ "dataEngineStatus st"], rule exI, simp)
      done
    then show ?thesis using nt am by simp
  qed
qed

lemma track_pnl_shape:
  "\<exists>a b c. snd (track_pnl h i st) =
     st\<lparr>pnlHistory := a, pnlTimestamps := b, pnlFullTimestamps := c\<rparr>"
proof (cases "truthy (metrics st)")
  case False
  have "snd (track_pnl h i st) =
     st\<lparr>pnlHistory := pnlHistory st, pnlTimestamps := pnlTimestamps st,
        pnlFullTimestamps := pnlFullTimestamps st\<rparr>"
    using False by (simp add: track_pnl_def)
  then show ?thesis by blast
next
  case True
  show ?thesis
  proof (cases "length (pnlHistory st) < MAX_HISTORY")
    case l: True
    have "snd (track_pnl h i st) =
     st\<lparr>pnlHistory := pnlHistory st @ [get_prop (metrics st) ''daily_pnl''],
        pnlTimestamps := pnlTimestamps st @ [fmtCompact h (now i)],
        pnlFullTimestamps := pnlFullTimestamps st @ [fmtFull h (now i)]\<rparr>"
      using True l by (simp add: track_pnl_def Let_def)
    then show ?thesis by blast
  next
    case l: False
    have "snd (track_pnl h i st) =
     st\<lparr>pnlHistory := tl (pnlHistory st @ [get_prop (metrics st) ''daily_pnl'']),
        pnlTimestamps := tl (pnlTimestamps st @ [fmtCompact h (now i)]),
        pnlFullTimestamps := tl (pnlFullTimestamps st @ [fmtFull h (now i)])\<rparr>"
      using True l by (simp add: track_pnl_def Let_def)
    then show ?thesis by blast
  qed
qed



lemma track_pnl_frame:
  assumes "\<And>s a b c. f (s\<lparr>pnlHistory := a, pnlTimestamps := b, pnlFullTimestamps := c\<rparr>) = f s"
  shows "f (snd (track_pnl h i st)) = f st"
  using track_pnl_shape[of h i st] assms by auto








text \<open>The metrics object up to the two properties the display code writes.\<close>

lemma filter_assign_alist:
  "k \<in> set ks \<Longrightarrow>
   filter (\<lambda>p. fst p \<notin> set ks) (assign_alist k v kvs) = filter (\<lambda>p. fst p \<notin> set ks) kvs"
  by (induction kvs) auto

lemma without_props_setp: "k \<in> set ks \<Longrightarrow> without_props ks (setp m k v) = without_props ks m"
  by (cases m) (simp_all add: filter_assign_alist)

lemma fetched_part_setp [simp]:
  "fetched_part (setp m ''total_capital'' v) = fetched_part m"
  "fetched_part (setp m ''execution_mode'' v) = fetched_part m"
  by (simp_all add: fetched_part_def without_props_setp)

lemma truthy_fetched_part [simp]: "truthy (fetched_part m) = truthy m"
  by (cases m) (simp_all add: fetched_part_def)

lemma uemu_metrics:
  "fetched_part (metrics (snd (updateExecutionModeUI h m d st))) = fetched_part (metrics st)"
  by (simp add: updateExecutionModeUI_def Let_def)

lemma ui_metrics: "fetched_part (metrics (updateDashboardUI h st)) = fetched_part (metrics st)"
  by (simp add: updateDashboardUI_def uemu_metrics)

lemma listener_metrics:
  "fetched_part (metrics (account_update_listener h v st)) = fetched_part (metrics st)"
  by (simp add: account_update_listener_def ui_metrics)

lemma store_balance_metrics:
  "fetched_part (metrics (store_balance h v st)) = fetched_part (metrics st)"
  by (simp add: store_balance_def Let_def listener_metrics)

lemmas metrics_frames =
  store_balance_metrics ui_metrics
  track_pnl_frame[where f="\<lambda>s. fetched_part (metrics s)", simplified]


lemma throws_rejected: "rejected r \<Longrightarrow> throws r"
  by (simp add: rejected_def throws_def split: fetch_result.splits)

lemma sync_all_none:
  assumes "no_throw i" and "s \<in> set (sync_body h i)"
  shows "fst (s st) = None"
proof -
  have nr: "\<not> rejected (mRes i)" "\<not> rejected (tRes i)" "\<not> rejected (lRes i)"
    "\<not> rejected (aRes i)" "\<not> rejected (sRes i)" "\<not> rejected (dRes i)"
    using assms(1) throws_rejected by (auto simp: no_throw_def throws_metrics_def)
  have nt: "\<not> throws_metrics (mRes i)" "\<not> throws (tRes i)" "\<not> throws (lRes i)"
    "\<not> throws (aRes i)" "\<not> throws (sRes i)" "\<not> throws (dRes i)"
    using assms(1) by (auto simp: no_throw_def)
  show ?thesis
    using assms(2) by (auto simp: sync_body_def await_fetch_fst apply_json_fst apply_metrics_fst nr nt)
qed

lemma sync_none_iff: "(fst (seq_try (sync_body h i) st) = None) = no_throw i"
proof
  assume "no_throw i"
  then show "fst (seq_try (sync_body h i) st) = None"
    using seq_try_all_none[of "sync_body h i" st] sync_all_none by blast
next
  assume n: "fst (seq_try (sync_body h i) st) = None"
  show "no_throw i"
  proof (rule ccontr)
    assume "\<not> no_throw i"
    then consider "throws_metrics (mRes i)" | "throws (tRes i)" | "throws (lRes i)"
      | "throws (aRes i)" | "throws (sRes i)" | "throws (dRes i)"
      by (auto simp: no_throw_def)
    then have "\<exists>s \<in> set (sync_body h i). \<forall>st. fst (s st) \<noteq> None"
    proof cases
      case 1
      then have "\<forall>st. fst (apply_metrics h (mRes i) st) \<noteq> None" by (simp add: apply_metrics_fst)
      then show ?thesis by (auto simp: sync_body_def)
    next
      case 2
      then have "\<forall>st. fst (apply_json (tRes i) (\<lambda>v st. st\<lparr>trades := v\<rparr>) st) \<noteq> None"
        by (simp add: apply_json_fst)
      then show ?thesis by (auto simp: sync_body_def)
    next
      case 3
      then have "\<forall>st. fst (apply_json (lRes i) (\<lambda>v st. st\<lparr>logs := v\<rparr>) st) \<noteq> None"
        by (simp add: apply_json_fst)
      then show ?thesis by (auto simp: sync_body_def)
    next
      case 4
      then have "\<forall>st. fst (apply_json (aRes i) (store_balance h) st) \<noteq> None"
        by (simp add: apply_json_fst)
      then show ?thesis by (auto simp: sync_body_def)
    next
      case 5
      then have "\<forall>st. fst (apply_json (sRes i) (\<lambda>v st. st\<lparr>agentV2Status := v\<rparr>) st) \<noteq> None"
        by (simp add: apply_json_fst)
      then show ?thesis by (auto simp: sync_body_def)
    next
      case 6
      then have "\<forall>st. fst (apply_json (dRes i) (\<lambda>v st. st\<lparr>auditTrail := v\<rparr>) st) \<noteq> None"
        by (simp add: apply_json_fst)
      then show ?thesis by (auto simp: sync_body_def)
    qed
    then obtain s where "s \<in> set (sync_body h i)" "\<And>st. fst (s st) \<noteq> None" by blast
    then have "fst (seq_try (sync_body h i) st) \<noteq> None" by (rule seq_try_some)
    then show False using n by simp
  qed
qed

lemma sync_field_clean:
  assumes nt: "no_throw i"
    and split: "sync_body h i = A @ s # B"
    and fA: "\<forall>s\<in>set A. \<forall>st. f (snd (s st)) = f st"
    and fB: "\<forall>s\<in>set B. \<forall>st. f (snd (s st)) = f st"
  shows "f (snd (seq_try (sync_body h i) st)) = f (snd (s (snd (seq_try A st))))"
proof -
  have "\<And>s st. s \<in> set A \<Longrightarrow> fst (s st) = None"
  proof -
    fix s' st'
    assume "s' \<in> set A"
    then have "s' \<in> set (sync_body h i)" using split by simp
    then show "fst (s' st') = None" using sync_all_none[OF nt] by blast
  qed
  then have n: "fst (seq_try A st) = None" by (rule seq_try_all_none)
  show ?thesis unfolding split using seq_try_field[of A f B s st, OF fA fB] n by simp
qed

lemma tick_after_sync:
  assumes "\<And>st. f (snd (track_pnl h i st)) = f st"
    and "\<And>st. f (updateDashboardUI h st) = f st"
  shows "f (snd (seq_try (tick_body h i) st)) = f (snd (seq_try (sync_body h i) st))"
proof (cases "seq_try (sync_body h i) st")
  case (Pair e s1)
  show ?thesis
  proof (cases e)
    case (Some x)
    then show ?thesis using Pair by (simp add: tick_body_def seq_try_append)
  next
    case None
    obtain e2 s2 where s2: "track_pnl h i s1 = (e2, s2)" by (cases "track_pnl h i s1")
    have "f s2 = f s1" using assms(1)[of s1] s2 by simp
    then show ?thesis using Pair None s2 assms(2)
      by (cases e2) (simp_all add: tick_body_def seq_try_append)
  qed
qed

subsection \<open>The fields after a tick\<close>







lemma apply_metrics_part:
  "fetched_part (metrics (snd (apply_metrics h r st))) =
     (if throws_metrics r then fetched_part (metrics st)
      else fetched_part (applied_metrics r (metrics st)))"
  using apply_metrics_shape[of h r st] by auto



lemma sync_metrics_clean:
  assumes "no_throw i"
  shows "fetched_part (metrics (snd (seq_try (sync_body h i) st))) =
     fetched_part (applied_metrics (mRes i) (metrics st))"
proof -
  define A where "A = [await_fetch (mRes i), await_fetch (tRes i), await_fetch (lRes i),
      await_fetch (aRes i)]"
  define B where "B = [apply_json (tRes i) (\<lambda>v st. st\<lparr>trades := v\<rparr>),
      apply_json (lRes i) (\<lambda>v st. st\<lparr>logs := v\<rparr>),
      apply_json (aRes i) (store_balance h),
      await_fetch (sRes i), await_fetch (dRes i),
      apply_json (sRes i) (\<lambda>v st. st\<lparr>agentV2Status := v\<rparr>),
      apply_json (dRes i) (\<lambda>v st. st\<lparr>auditTrail := v\<rparr>)]"
  have split: "sync_body h i = A @ apply_metrics h (mRes i) # B"
    by (simp add: sync_body_def A_def B_def)
  have fA: "\<forall>s\<in>set A. \<forall>st. snd (s st) = st"
    by (auto simp: A_def await_fetch_same)
  have fA': "\<forall>s\<in>set A. \<forall>st. fetched_part (metrics (snd (s st))) = fetched_part (metrics st)"
    using fA by simp
  have fB: "\<forall>s\<in>set B. \<forall>st. fetched_part (metrics (snd (s st))) = fetched_part (metrics st)"
    by (auto simp: B_def await_fetch_same apply_json_snd metrics_frames split: option.splits)
  have sA: "snd (seq_try A st) = st"
    using seq_try_frame[of A "\<lambda>s. s" st] fA by blast
  have nm: "\<not> throws_metrics (mRes i)" using assms by (simp add: no_throw_def)
  have "fetched_part (metrics (snd (seq_try (sync_body h i) st))) =
      fetched_part (metrics (snd (apply_metrics h (mRes i) (snd (seq_try A st)))))"
    by (rule sync_field_clean[where f="\<lambda>s. fetched_part (metrics s)" and A=A and B=B
          and h=h and i=i and s="apply_metrics h (mRes i)", OF assms split fA' fB])
  then show ?thesis using sA nm by (simp add: apply_metrics_part)
qed

lemma tick_metrics_clean:
  assumes "isAuth st" "no_throw i"
  shows "fetched_part (metrics (fetchSystemData h i st)) =
     fetched_part (applied_metrics (mRes i) (metrics st))"
proof -
  have "fetched_part (metrics (snd (seq_try (tick_body h i) st))) =
      fetched_part (metrics (snd (seq_try (sync_body h i) st)))"
    by (rule tick_after_sync[where f="\<lambda>s. fetched_part (metrics s)"]) (simp_all add: metrics_frames)
  then show ?thesis using assms sync_metrics_clean by (simp add: fetchSystemData_def)
qed








lemma tick_appends_iff:
  "tick_appends h i st =
     (isAuth st \<and> no_throw i \<and> truthy (applied_metrics (mRes i) (metrics st)))"
proof (cases "no_throw i")
  case False
  then show ?thesis by (simp add: tick_appends_def sync_none_iff)
next
  case True
  have "truthy (metrics (snd (seq_try (sync_body h i) st))) =
      truthy (fetched_part (metrics (snd (seq_try (sync_body h i) st))))"
    by simp
  also have "\<dots> = truthy (applied_metrics (mRes i) (metrics st))"
    using sync_metrics_clean[OF True] by simp
  finally show ?thesis using True by (simp add: tick_appends_def sync_none_iff)
qed

lemma map_of_filter_other:
  "k \<notin> set ks \<Longrightarrow> map_of (filter (\<lambda>p. fst p \<notin> set ks) kvs) k = map_of kvs k"
  by (induction kvs) auto

lemma get_prop_fetched_part:
  assumes "k \<noteq> ''total_capital''" "k \<noteq> ''execution_mode''"
  shows "get_prop (fetched_part m) k = get_prop m k"
proof (cases m)
  case (JObj kvs)
  have "k \<notin> set [''total_capital'', ''execution_mode'']" using assms by simp
  then have "map_of (filter (\<lambda>p. fst p \<notin> set [''total_capital'', ''execution_mode'']) kvs) k
      = map_of kvs k"
    by (rule map_of_filter_other)
  then show ?thesis unfolding JObj fetched_part_def
    by (simp only: without_props.simps get_prop.simps)
qed (simp_all add: fetched_part_def)



section \<open>Lemmas about the earlier revision\<close>

text \<open>
  The tick of \<open>static/app.js\<close> applies its endpoints, keeps the fields of failed
  endpoints and maintains the buffer in the same way.
\<close>

lemma store_balance_static_shape:
  "\<exists>mt. store_balance_static h v st =
     st\<lparr>metrics := mt, account_update := v, accountEvents := accountEvents st @ [v]\<rparr>
     \<and> fetched_part mt = fetched_part (metrics st)"
proof (cases "accountListener h \<and> truthy v \<and> get_prop v ''balance'' \<noteq> JUndefined
    \<and> truthy (metrics st)")
  case True
  have "store_balance_static h v st =
     st\<lparr>metrics := setp (metrics st) ''total_capital'' (get_prop v ''balance''),
        account_update := v, accountEvents := accountEvents st @ [v]\<rparr>"
    using True by (simp add: store_balance_static_def account_update_listener_static_def Let_def)
  then show ?thesis by (metis fetched_part_setp(1))
next
  case False
  have "store_balance_static h v st =
     st\<lparr>metrics := metrics st, account_update := v, accountEvents := accountEvents st @ [v]\<rparr>"
    using False
    by (auto simp add: store_balance_static_def account_update_listener_static_def Let_def)
  then show ?thesis by metis
qed

lemma store_balance_static_frame:
  assumes "\<And>s mt v ae. f (s\<lparr>metrics := mt, account_update := v, accountEvents := ae\<rparr>) = f s"
  shows "f (store_balance_static h v st) = f st"
  using store_balance_static_shape[of h v st] assms by auto

lemma store_balance_static_metrics:
  "fetched_part (metrics (store_balance_static h v st)) = fetched_part (metrics st)"
  using store_balance_static_shape[of h v st] by auto

lemma store_balance_static_account: "account_update (store_balance_static h v st) = v"
  using store_balance_static_shape[of h v st] by auto

lemmas static_frames =
  store_balance_static_frame[where f=trades, simplified]
  store_balance_static_frame[where f=logs, simplified]
  store_balance_static_frame[where f=agentV2Status, simplified]
  store_balance_static_frame[where f=auditTrail, simplified]
  store_balance_static_frame[where f=isAuth, simplified]
  track_pnl_frame[where f=trades, simplified] track_pnl_frame[where f=logs, simplified]
  track_pnl_frame[where f=account_update, simplified]
  track_pnl_frame[where f=agentV2Status, simplified]
  track_pnl_frame[where f=auditTrail, simplified]
  track_pnl_frame[where f=metrics, simplified]

text \<open>The page after the statements of lines 398 to 416 when none of them throws.\<close>

lemma static_all_none:
  assumes "no_throw_static i" and "s \<in> set (sync_body_static h i)"
  shows "fst (s st) = None"
proof -
  have nr: "\<not> rejected (mRes i)" "\<not> rejected (tRes i)" "\<not> rejected (lRes i)"
    "\<not> rejected (aRes i)" "\<not> rejected (sRes i)" "\<not> rejected (dRes i)"
    using assms(1) throws_rejected by (auto simp: no_throw_static_def)
  have nt: "\<not> throws (mRes i)" "\<not> throws (tRes i)" "\<not> throws (lRes i)"
    "\<not> throws (aRes i)" "\<not> throws (sRes i)" "\<not> throws (dRes i)"
    using assms(1) by (auto simp: no_throw_static_def)
  show ?thesis
    using assms(2) by (auto simp: sync_body_static_def await_fetch_fst apply_json_fst nr nt)
qed

lemma seq_try_no_throw:
  "\<forall>s\<in>set ss. \<forall>st. fst (s st) = None \<Longrightarrow>
   seq_try ss st = (None, foldl (\<lambda>st s. snd (s st)) st ss)"
proof (induction ss arbitrary: st)
  case Nil
  then show ?case by simp
next
  case (Cons s ss)
  have "fst (s st) = None" using Cons.prems by simp
  then obtain st' where e: "s st = (None, st')" by (cases "s st") auto
  show ?case using Cons.IH[of st'] Cons.prems e by simp
qed

lemma static_sync_clean:
  assumes "no_throw_static i"
  shows "seq_try (sync_body_static h i) st =
     (None,
      (case decoded (dRes i) of Some v \<Rightarrow> auditTrail_update (\<lambda>_. v) | None \<Rightarrow> id)
      ((case decoded (sRes i) of Some v \<Rightarrow> agentV2Status_update (\<lambda>_. v) | None \<Rightarrow> id)
      ((case decoded (aRes i) of Some v \<Rightarrow> store_balance_static h v | None \<Rightarrow> id)
      ((case decoded (lRes i) of Some v \<Rightarrow> logs_update (\<lambda>_. v) | None \<Rightarrow> id)
      ((case decoded (tRes i) of Some v \<Rightarrow> trades_update (\<lambda>_. v) | None \<Rightarrow> id)
      ((case decoded (mRes i) of Some v \<Rightarrow> metrics_update (\<lambda>_. v) | None \<Rightarrow> id) st))))))"
proof -
  have "\<forall>s\<in>set (sync_body_static h i). \<forall>st. fst (s st) = None"
    using static_all_none[OF assms] by blast
  then have "seq_try (sync_body_static h i) st =
      (None, foldl (\<lambda>st s. snd (s st)) st (sync_body_static h i))"
    by (rule seq_try_no_throw)
  then show ?thesis
    by (simp add: sync_body_static_def await_fetch_same apply_json_snd split: option.splits)
qed

lemma static_tick_after_sync:
  assumes "\<And>st. f (snd (track_pnl h i st)) = f st"
  shows "f (fetchSystemData_static h i st) =
     (if isAuth st then f (snd (seq_try (sync_body_static h i) st)) else f st)"
proof (cases "seq_try (sync_body_static h i) st")
  case (Pair e s1)
  show ?thesis
  proof (cases e)
    case (Some x)
    then show ?thesis using Pair by (simp add: fetchSystemData_static_def seq_try_append)
  next
    case None
    obtain e2 s2 where s2: "track_pnl h i s1 = (e2, s2)" by (cases "track_pnl h i s1")
    have "f s2 = f s1" using assms[of s1] s2 by simp
    then show ?thesis using Pair None s2
      by (cases e2) (simp_all add: fetchSystemData_static_def seq_try_append)
  qed
qed

lemma static_clean_fields:
  assumes "isAuth st" "no_throw_static i"
  shows "fetched_part (metrics (fetchSystemData_static h i st))
         = fetched_part (applied (mRes i) (metrics st))
     \<and> trades (fetchSystemData_static h i st) = applied (tRes i) (trades st)
     \<and> logs (fetchSystemData_static h i st) = applied (lRes i) (logs st)
     \<and> account_update (fetchSystemData_static h i st) = applied (aRes i) (account_update st)
     \<and> agentV2Status (fetchSystemData_static h i st) = applied (sRes i) (agentV2Status st)
     \<and> auditTrail (fetchSystemData_static h i st) = applied (dRes i) (auditTrail st)"
proof -
  note c = static_sync_clean[OF assms(2), of h st]
  have m: "fetched_part (metrics (fetchSystemData_static h i st))
         = fetched_part (applied (mRes i) (metrics st))"
    using static_tick_after_sync[where f="\<lambda>s. fetched_part (metrics s)" and h=h and i=i and st=st]
      assms(1) c
    by (simp add: static_frames store_balance_static_metrics applied_def split: option.splits)
  have t: "trades (fetchSystemData_static h i st) = applied (tRes i) (trades st)"
    using static_tick_after_sync[where f=trades and h=h and i=i and st=st] assms(1) c
    by (simp add: static_frames applied_def split: option.splits)
  have l: "logs (fetchSystemData_static h i st) = applied (lRes i) (logs st)"
    using static_tick_after_sync[where f=logs and h=h and i=i and st=st] assms(1) c
    by (simp add: static_frames applied_def split: option.splits)
  have a: "account_update (fetchSystemData_static h i st) = applied (aRes i) (account_update st)"
    using static_tick_after_sync[where f=account_update and h=h and i=i and st=st] assms(1) c
    by (simp add: static_frames store_balance_static_account applied_def split: option.splits)
  have s: "agentV2Status (fetchSystemData_static h i st) = applied (sRes i) (agentV2Status st)"
    using static_tick_after_sync[where f=agentV2Status and h=h and i=i and st=st] assms(1) c
    by (simp add: static_frames applied_def split: option.splits)
  have d: "auditTrail (fetchSystemData_static h i st) = applied (dRes i) (auditTrail st)"
    using static_tick_after_sync[where f=auditTrail and h=h and i=i and st=st] assms(1) c
    by (simp add: static_frames applied_def split: option.splits)
  show ?thesis using m t l a s d by simp
qed

lemma static_failed:
  assumes "\<forall>s\<in>set (sync_body_static h i). \<forall>st. f (snd (s st)) = f st"
    and "\<And>st. f (snd (track_pnl h i st)) = f st"
  shows "f (fetchSystemData_static h i st) = f st"
  using static_tick_after_sync[where f=f and h=h and i=i and st=st, OF assms(2)]
    seq_try_frame[OF assms(1), of st]
  by simp

lemma static_failed_fields:
  "(decoded (mRes i) = None \<longrightarrow>
      fetched_part (metrics (fetchSystemData_static h i st)) = fetched_part (metrics st))
   \<and> (decoded (tRes i) = None \<longrightarrow> trades (fetchSystemData_static h i st) = trades st)
   \<and> (decoded (lRes i) = None \<longrightarrow> logs (fetchSystemData_static h i st) = logs st)
   \<and> (decoded (aRes i) = None \<longrightarrow>
        account_update (fetchSystemData_static h i st) = account_update st)
   \<and> (decoded (sRes i) = None \<longrightarrow>
        agentV2Status (fetchSystemData_static h i st) = agentV2Status st)
   \<and> (decoded (dRes i) = None \<longrightarrow>
        auditTrail (fetchSystemData_static h i st) = auditTrail st)
   \<and> isAuth (fetchSystemData_static h i st) = isAuth st"
proof -
  have m: "decoded (mRes i) = None \<longrightarrow>
      fetched_part (metrics (fetchSystemData_static h i st)) = fetched_part (metrics st)"
  proof
    assume a: "decoded (mRes i) = None"
    show "fetched_part (metrics (fetchSystemData_static h i st)) = fetched_part (metrics st)"
      by (rule static_failed[where f="\<lambda>s. fetched_part (metrics s)"])
         (auto simp: sync_body_static_def await_fetch_same apply_json_snd static_frames
            store_balance_static_metrics a split: option.splits)
  qed
  have t: "decoded (tRes i) = None \<longrightarrow> trades (fetchSystemData_static h i st) = trades st"
  proof
    assume a: "decoded (tRes i) = None"
    show "trades (fetchSystemData_static h i st) = trades st"
      by (rule static_failed[where f=trades])
         (auto simp: sync_body_static_def await_fetch_same apply_json_snd static_frames a
            split: option.splits)
  qed
  have l: "decoded (lRes i) = None \<longrightarrow> logs (fetchSystemData_static h i st) = logs st"
  proof
    assume a: "decoded (lRes i) = None"
    show "logs (fetchSystemData_static h i st) = logs st"
      by (rule static_failed[where f=logs])
         (auto simp: sync_body_static_def await_fetch_same apply_json_snd static_frames a
            split: option.splits)
  qed
  have ac: "decoded (aRes i) = None \<longrightarrow>
        account_update (fetchSystemData_static h i st) = account_update st"
  proof
    assume a: "decoded (aRes i) = None"
    show "account_update (fetchSystemData_static h i st) = account_update st"
      by (rule static_failed[where f=account_update])
         (auto simp: sync_body_static_def await_fetch_same apply_json_snd static_frames a
            split: option.splits)
  qed
  have s: "decoded (sRes i) = None \<longrightarrow>
        agentV2Status (fetchSystemData_static h i st) = agentV2Status st"
  proof
    assume a: "decoded (sRes i) = None"
    show "agentV2Status (fetchSystemData_static h i st) = agentV2Status st"
      by (rule static_failed[where f=agentV2Status])
         (auto simp: sync_body_static_def await_fetch_same apply_json_snd static_frames a
            split: option.splits)
  qed
  have d: "decoded (dRes i) = None \<longrightarrow>
        auditTrail (fetchSystemData_static h i st) = auditTrail st"
  proof
    assume a: "decoded (dRes i) = None"
    show "auditTrail (fetchSystemData_static h i st) = auditTrail st"
      by (rule static_failed[where f=auditTrail])
         (auto simp: sync_body_static_def await_fetch_same apply_json_snd static_frames a
            split: option.splits)
  qed
  have au: "isAuth (fetchSystemData_static h i st) = isAuth st"
    by (rule static_failed[where f=isAuth])
       (auto simp: sync_body_static_def await_fetch_same apply_json_snd static_frames
          track_pnl_frame[where f=isAuth, simplified] split: option.splits)
  show ?thesis by (intro conjI) (fact m t l ac s d au)+
qed

lemma store_balance_static_buffers:
  "buffers_of (store_balance_static h v st) = buffers_of st"
  using store_balance_static_shape[of h v st] by (auto simp: buffers_of_def)

lemma static_sync_buffers:
  "buffers_of (snd (seq_try (sync_body_static h i) st)) = buffers_of st"
  by (rule seq_try_frame)
     (auto simp: sync_body_static_def await_fetch_same apply_json_snd
        store_balance_static_buffers split: option.splits, simp_all add: buffers_of_def)

lemma static_tick_buffers:
  "buffers_of (fetchSystemData_static h i st) =
     (if tick_appends_static h i st then
        (if length (pnlHistory st) < MAX_HISTORY
         then (pnlHistory st @ [get_prop (metrics (fetchSystemData_static h i st)) ''daily_pnl''],
               pnlTimestamps st @ [fmtCompact h (now i)],
               pnlFullTimestamps st @ [fmtFull h (now i)])
         else (tl (pnlHistory st @
                 [get_prop (metrics (fetchSystemData_static h i st)) ''daily_pnl'']),
               tl (pnlTimestamps st @ [fmtCompact h (now i)]),
               tl (pnlFullTimestamps st @ [fmtFull h (now i)])))
      else buffers_of st)"
proof (cases "isAuth st")
  case False
  then show ?thesis by (simp add: fetchSystemData_static_def tick_appends_static_def)
next
  case True
  obtain e s1 where s1: "seq_try (sync_body_static h i) st = (e, s1)"
    by (cases "seq_try (sync_body_static h i) st")
  have b1: "buffers_of s1 = buffers_of st" using static_sync_buffers[of h i st] s1 by simp
  show ?thesis
  proof (cases e)
    case (Some x)
    then show ?thesis using True s1 b1
      by (simp add: fetchSystemData_static_def tick_appends_static_def seq_try_append)
  next
    case None
    obtain e2 s2 where s2: "track_pnl h i s1 = (e2, s2)" by (cases "track_pnl h i s1")
    have fin: "fetchSystemData_static h i st = s2"
      using True s1 None s2 by (cases e2) (simp_all add: fetchSystemData_static_def seq_try_append)
    show ?thesis
    proof (cases "truthy (metrics s1)")
      case False
      then have "s2 = s1" using s2 by (simp add: track_pnl_def)
      then show ?thesis using True s1 None False b1 fin by (simp add: tick_appends_static_def)
    next
      case t: True
      have ta: "tick_appends_static h i st" using True s1 None t by (simp add: tick_appends_static_def)
      have m2: "metrics s2 = metrics s1" using s2 t by (auto simp: track_pnl_def Let_def)
      have "buffers_of s2 =
         (if length (pnlHistory s1) < MAX_HISTORY
          then (pnlHistory s1 @ [get_prop (metrics s1) ''daily_pnl''],
                pnlTimestamps s1 @ [fmtCompact h (now i)],
                pnlFullTimestamps s1 @ [fmtFull h (now i)])
          else (tl (pnlHistory s1 @ [get_prop (metrics s1) ''daily_pnl'']),
                tl (pnlTimestamps s1 @ [fmtCompact h (now i)]),
                tl (pnlFullTimestamps s1 @ [fmtFull h (now i)])))"
        using s2 t by (auto simp: track_pnl_def Let_def buffers_of_def)
      then show ?thesis using ta fin m2 b1 by (simp add: buffers_of_def)
    qed
  qed
qed

lemma static_tick_buffer_inv: "buffer_inv st \<Longrightarrow> buffer_inv (fetchSystemData_static h i st)"
  using static_tick_buffers[of h i st]
  by (auto simp: buffers_of_def buffer_inv_def aligned_def split: if_splits)

lemma static_run_buffer_inv: "buffer_inv st \<Longrightarrow> buffer_inv (run_static h is st)"
  by (induction "is" arbitrary: st) (simp_all add: static_tick_buffer_inv)

lemma static_rejected_early:
  assumes "rejected (mRes i) \<or> rejected (tRes i) \<or> rejected (lRes i) \<or> rejected (aRes i)"
  shows "fetchSystemData_static h i st = st"
  using assms
  by (auto simp: fetchSystemData_static_def sync_body_static_def await_fetch_def rejected_def
      split: fetch_result.splits)

section \<open>The Sync Loop and the Time-Series Buffer\<close>




text \<open>
  Claim C4.  Along every run from the initial page the three arrays of the buffer hold
  at most \<open>MAX_HISTORY\<close> entries.  A tick that reaches the pushes appends one point;
  below capacity nothing is dropped, at capacity exactly the oldest point of each
  array is dropped; a tick that does not reach them leaves the buffer.
\<close>

theorem buffer_bounded_fifo:
  "length (pnlHistory (run h evs initial_page)) \<le> MAX_HISTORY
   \<and> length (pnlTimestamps (run h evs initial_page)) \<le> MAX_HISTORY
   \<and> length (pnlFullTimestamps (run h evs initial_page)) \<le> MAX_HISTORY
   \<and> (tick_appends h i st \<and> length (pnlHistory st) < MAX_HISTORY \<longrightarrow>
        buffers_of (fetchSystemData h i st) =
          (pnlHistory st @ [get_prop (metrics (fetchSystemData h i st)) ''daily_pnl''],
           pnlTimestamps st @ [fmtCompact h (now i)],
           pnlFullTimestamps st @ [fmtFull h (now i)]))
   \<and> (tick_appends h i st \<and> aligned st \<and> length (pnlHistory st) = MAX_HISTORY \<longrightarrow>
        buffers_of (fetchSystemData h i st) =
          (tl (pnlHistory st) @ [get_prop (metrics (fetchSystemData h i st)) ''daily_pnl''],
           tl (pnlTimestamps st) @ [fmtCompact h (now i)],
           tl (pnlFullTimestamps st) @ [fmtFull h (now i)]))
   \<and> (\<not> tick_appends h i st \<longrightarrow> buffers_of (fetchSystemData h i st) = buffers_of st)"
proof -
  have inv: "buffer_inv (run h evs initial_page)"
    using run_buffer_inv[OF initial_buffer_inv] .
  have c1: "length (pnlHistory (run h evs initial_page)) \<le> MAX_HISTORY"
    and c2: "length (pnlTimestamps (run h evs initial_page)) \<le> MAX_HISTORY"
    and c3: "length (pnlFullTimestamps (run h evs initial_page)) \<le> MAX_HISTORY"
    using inv by (simp_all add: buffer_inv_def aligned_def)
  have c4: "tick_appends h i st \<and> length (pnlHistory st) < MAX_HISTORY \<longrightarrow>
        buffers_of (fetchSystemData h i st) =
          (pnlHistory st @ [get_prop (metrics (fetchSystemData h i st)) ''daily_pnl''],
           pnlTimestamps st @ [fmtCompact h (now i)],
           pnlFullTimestamps st @ [fmtFull h (now i)])"
    using tick_append[of h i st] by simp
  have c5: "tick_appends h i st \<and> aligned st \<and> length (pnlHistory st) = MAX_HISTORY \<longrightarrow>
        buffers_of (fetchSystemData h i st) =
          (tl (pnlHistory st) @ [get_prop (metrics (fetchSystemData h i st)) ''daily_pnl''],
           tl (pnlTimestamps st) @ [fmtCompact h (now i)],
           tl (pnlFullTimestamps st) @ [fmtFull h (now i)])"
  proof
    assume a: "tick_appends h i st \<and> aligned st \<and> length (pnlHistory st) = MAX_HISTORY"
    then have ne: "pnlHistory st \<noteq> []" "pnlTimestamps st \<noteq> []" "pnlFullTimestamps st \<noteq> []"
      by (auto simp: aligned_def MAX_HISTORY_def)
    show "buffers_of (fetchSystemData h i st) =
          (tl (pnlHistory st) @ [get_prop (metrics (fetchSystemData h i st)) ''daily_pnl''],
           tl (pnlTimestamps st) @ [fmtCompact h (now i)],
           tl (pnlFullTimestamps st) @ [fmtFull h (now i)])"
      using tick_append[of h i st] a ne by simp
  qed
  have c6: "\<not> tick_appends h i st \<longrightarrow> buffers_of (fetchSystemData h i st) = buffers_of st"
    using tick_no_append[of h i st] by blast
  show ?thesis by (intro conjI) (fact c1 c2 c3 c4 c5 c6)+
qed

text \<open>
  Claim C4, witness: a tick on an empty buffer, and a tick on a buffer of 900 points.
\<close>

theorem buffer_bounded_fifo_witness:
  "buffers_of (fetchSystemData sample_host sample_tick sample_page) =
     ([JNum 5], [''10:00:00''], [''Nov 3, 2026, 10:00:00''])
   \<and> buffers_of (fetchSystemData sample_host sample_tick full_page) =
     (tl (replicate 900 (JNum 1)) @ [JNum 5],
      tl (replicate 900 ''09:00:00'') @ [''10:00:00''],
      tl (replicate 900 ''Nov 3, 2026, 09:00:00'') @ [''Nov 3, 2026, 10:00:00''])"
proof -
  have h1: "tick_appends sample_host sample_tick sample_page
      \<and> length (pnlHistory sample_page) < MAX_HISTORY"
    by code_simp
  have nt: "no_throw sample_tick" by code_simp
  have am: "applied_metrics (mRes sample_tick) sample_metrics = sample_metrics" by code_simp
  have tm: "truthy sample_metrics" by (simp add: sample_metrics_def)
  have m: "metrics full_page = sample_metrics \<and> isAuth full_page"
    by (simp add: full_page_def sample_page_def)
  have h2: "tick_appends sample_host sample_tick full_page \<and> aligned full_page
      \<and> length (pnlHistory full_page) = MAX_HISTORY"
    using nt am tm m by (simp add: tick_appends_iff aligned_def full_page_def MAX_HISTORY_def)
  have v1: "get_prop (metrics (fetchSystemData sample_host sample_tick sample_page)) ''daily_pnl''
      = JNum 5"
    by code_simp
  have "get_prop (metrics (fetchSystemData sample_host sample_tick full_page)) ''daily_pnl''
      = get_prop (fetched_part (metrics (fetchSystemData sample_host sample_tick full_page)))
          ''daily_pnl''"
    by (simp add: get_prop_fetched_part)
  also have "\<dots> = get_prop (fetched_part sample_metrics) ''daily_pnl''"
    using tick_metrics_clean[of full_page sample_tick sample_host] m nt am by simp
  also have "\<dots> = JNum 5" by code_simp
  finally have v2:
    "get_prop (metrics (fetchSystemData sample_host sample_tick full_page)) ''daily_pnl'' = JNum 5" .
  have b: "pnlHistory sample_page = [] \<and> pnlTimestamps sample_page = []
      \<and> pnlFullTimestamps sample_page = []"
    by (simp add: sample_page_def initial_page_def)
  have f: "pnlHistory full_page = replicate 900 (JNum 1)
      \<and> pnlTimestamps full_page = replicate 900 ''09:00:00''
      \<and> pnlFullTimestamps full_page = replicate 900 ''Nov 3, 2026, 09:00:00''"
    by (simp add: full_page_def)
  have t: "fmtCompact sample_host (now sample_tick) = ''10:00:00''
      \<and> fmtFull sample_host (now sample_tick) = ''Nov 3, 2026, 10:00:00''"
    by (simp add: sample_host_def)
  have w1: "buffers_of (fetchSystemData sample_host sample_tick sample_page) =
     ([JNum 5], [''10:00:00''], [''Nov 3, 2026, 10:00:00''])"
    using buffer_bounded_fifo[of sample_host "[]" sample_tick sample_page] h1 v1 b t by simp
  have w2: "buffers_of (fetchSystemData sample_host sample_tick full_page) =
     (tl (replicate 900 (JNum 1)) @ [JNum 5],
      tl (replicate 900 ''09:00:00'') @ [''10:00:00''],
      tl (replicate 900 ''Nov 3, 2026, 09:00:00'') @ [''Nov 3, 2026, 10:00:00''])"
    using buffer_bounded_fifo[of sample_host "[]" sample_tick full_page] h2 v2 f t by simp
  show ?thesis using w1 w2 by simp
qed

text \<open>
  Claim C5.  Along every run of logins, ticks, mode switches and range changes the
  three arrays have equal length.  The reset breaks this: at the failing input, after a
  login and one tick, the three arrays hold one entry each; the confirmed reset empties
  \<open>pnlHistory\<close> and leaves the two timestamp arrays, so the arrays are no longer of
  equal length (until the reload replaces the page).
\<close>

theorem reset_clears_values_only:
  "aligned (run h evs initial_page)
   \<and> buffers_of (run sample_host [Login, Tick sample_tick] initial_page) =
     ([JNum 5], [''10:00:00''], [''Nov 3, 2026, 10:00:00''])
   \<and> buffers_of (controlSystem_reset True
         (run sample_host [Login, Tick sample_tick] initial_page)) =
     ([], [''10:00:00''], [''Nov 3, 2026, 10:00:00''])
   \<and> \<not> aligned (controlSystem_reset True
         (run sample_host [Login, Tick sample_tick] initial_page))"
proof -
  have a: "aligned (run h evs initial_page)"
    using run_buffer_inv[OF initial_buffer_inv, of h evs] by (simp add: buffer_inv_def)
  have b: "buffers_of (run sample_host [Login, Tick sample_tick] initial_page) =
     ([JNum 5], [''10:00:00''], [''Nov 3, 2026, 10:00:00''])
   \<and> buffers_of (controlSystem_reset True
         (run sample_host [Login, Tick sample_tick] initial_page)) =
     ([], [''10:00:00''], [''Nov 3, 2026, 10:00:00''])
   \<and> \<not> aligned (controlSystem_reset True
         (run sample_host [Login, Tick sample_tick] initial_page))"
    by code_simp
  show ?thesis using a b by simp
qed




section \<open>The Mode-Switch State Machine\<close>














text \<open>
  Claim C3.  A switch to \<open>REAL\<close> whose confirmation is declined leaves the page
  exactly as it was: no request is sent, the flag, the displayed mode and every
  snapshot field are unchanged.  (When a switch is already in flight the dialog is
  not shown; the call then only adds the "in progress" alert.)
\<close>

theorem declined_real_switch_is_noop:
  "(\<not> isSwitchingMode st \<longrightarrow> confirmModeSwitch ''REAL'' False st = st)
   \<and> confirmModeSwitch ''REAL'' False st =
       st\<lparr>alerts := alerts (confirmModeSwitch ''REAL'' False st)\<rparr>
   \<and> modeRequests (confirmModeSwitch ''REAL'' False st) = modeRequests st
   \<and> pending (confirmModeSwitch ''REAL'' False st) = pending st
   \<and> isSwitchingMode (confirmModeSwitch ''REAL'' False st) = isSwitchingMode st
   \<and> headerMode (confirmModeSwitch ''REAL'' False st) = headerMode st
   \<and> executionMode (confirmModeSwitch ''REAL'' False st) = executionMode st"
  by (simp add: confirmModeSwitch_def)

text \<open>Claim C3, witness: the declined switch on a page with no switch in flight.\<close>

theorem declined_real_switch_is_noop_witness:
  "confirmModeSwitch ''REAL'' False sample_page = sample_page"
proof -
  have "\<not> isSwitchingMode sample_page" by code_simp
  then show ?thesis using declined_real_switch_is_noop[of sample_page] by simp
qed

section \<open>The Downsampler\<close>

lemma div_add_small: "r < s \<Longrightarrow> (k * s + r) div s = (k::nat)"
  by simp

lemma ceil_div_step:
  assumes "0 < (s::nat)"
  shows "(Suc n + s - 1) div s = (if n mod s = 0 then Suc ((n + s - 1) div s) else (n + s - 1) div s)"
proof (cases "n mod s = 0")
  case True
  then have "n = (n div s) * s" using div_mult_mod_eq[of n s] by simp
  then obtain k where k: "n = k * s" by blast
  have a: "(k * s + s - 1) div s = k"
  proof -
    have e: "k * s + s - 1 = k * s + (s - 1)" using assms by simp
    have "(k * s + (s - 1)) div s = k" by (rule div_add_small) (use assms in simp)
    then show ?thesis by (simp only: e)
  qed
  have b: "(Suc (k * s) + s - 1) div s = Suc k"
  proof -
    have "Suc (k * s) + s - 1 = Suc k * s" by simp
    then show ?thesis using assms by (metis nonzero_mult_div_cancel_right less_numeral_extra(3))
  qed
  show ?thesis using True k a b by simp
next
  case False
  define k where "k = n div s"
  define r where "r = n mod s"
  have n: "n = k * s + r" and r: "0 < r" "r < s"
    using False assms by (simp_all add: k_def r_def)
  have a: "(n + s - 1) div s = Suc k"
  proof -
    have e: "n + s - 1 = Suc k * s + (r - 1)" using n r by simp
    have "(Suc k * s + (r - 1)) div s = Suc k" by (rule div_add_small) (use r in simp)
    then show ?thesis by (simp only: e)
  qed
  have b: "(Suc n + s - 1) div s = Suc k"
  proof -
    have e: "Suc n + s - 1 = Suc k * s + r" using n by simp
    have "(Suc k * s + r) div s = Suc k" by (rule div_add_small) (use r in simp)
    then show ?thesis by (simp only: e)
  qed
  show ?thesis using False a b by simp
qed

lemma idx_below:
  assumes "0 < (s::nat)" "j < (n + s - 1) div s"
  shows "j * s < n"
proof (rule ccontr)
  assume "\<not> j * s < n"
  then have "n \<le> j * s" by simp
  then have "n + s - 1 \<le> j * s + (s - 1)" by simp
  then have "(n + s - 1) div s \<le> (j * s + (s - 1)) div s" by (rule div_le_mono)
  moreover have "(j * s + (s - 1)) div s = j" using assms(1) by (intro div_add_small) simp
  ultimately show False using assms(2) by simp
qed

lemma filter_step_map:
  assumes "0 < s"
  shows "filter_step s xs = map (\<lambda>j. xs ! (j * s)) [0..<(length xs + s - 1) div s]"
proof (induction xs rule: rev_induct)
  case Nil
  have "(s - 1) div s = 0" using assms by simp
  then show ?case by (simp add: filter_step_def)
next
  case (snoc x xs)
  let ?n = "length xs"
  let ?c = "(?n + s - 1) div s"
  have old: "map (\<lambda>j. (xs @ [x]) ! (j * s)) [0..<?c] = map (\<lambda>j. xs ! (j * s)) [0..<?c]"
    using idx_below[OF assms] by (auto simp: nth_append)
  have fs: "filter_step s (xs @ [x]) =
      filter_step s xs @ (if ?n mod s = 0 then [x] else [])"
    by (simp add: filter_step_def enumerate_append_eq)
  show ?case
  proof (cases "?n mod s = 0")
    case True
    have c: "(length (xs @ [x]) + s - 1) div s = Suc ?c"
      using ceil_div_step[OF assms, of ?n] True by simp
    have "?c * s = ?n"
    proof -
      have "?n = (?n div s) * s" using True div_mult_mod_eq[of ?n s] by simp
      then obtain k where k: "?n = k * s" by blast
      have e: "k * s + s - 1 = k * s + (s - 1)" using assms by simp
      have "(k * s + (s - 1)) div s = k" by (rule div_add_small) (use assms in simp)
      then have "(k * s + s - 1) div s = k" by (simp only: e)
      then show ?thesis using k by simp
    qed
    then have last: "(xs @ [x]) ! (?c * s) = x" by simp
    show ?thesis using fs True snoc.IH c old last by simp
  next
    case False
    have c: "(length (xs @ [x]) + s - 1) div s = ?c"
      using ceil_div_step[OF assms, of ?n] False by simp
    show ?thesis using fs False snoc.IH c old by simp
  qed
qed

lemma length_filter_step: "0 < s \<Longrightarrow> length (filter_step s xs) = (length xs + s - 1) div s"
  by (simp add: filter_step_map)

lemma nth_filter_step:
  "0 < s \<Longrightarrow> j < length (filter_step s xs) \<Longrightarrow> filter_step s xs ! j = xs ! (j * s)"
  by (simp add: filter_step_map)

lemma ceil_nat_div:
  assumes "0 < (s::nat)"
  shows "int ((n + s - 1) div s) = \<lceil>real n / real s\<rceil>"
proof -
  define q where "q = (n + s - 1) div s"
  have q1: "q * s \<le> n + s - 1" by (simp add: q_def)
  have q2: "n + s - 1 < s + q * s" unfolding q_def using assms by (rule dividend_less_div_times)
  have a: "n \<le> q * s" using q2 assms by simp
  have b: "q * s < n + s" using q1 assms by simp
  have ra: "real n \<le> real q * real s" using a by (metis of_nat_le_iff of_nat_mult)
  have rb: "real q * real s < real n + real s" using b by (metis of_nat_less_iff of_nat_mult of_nat_add)
  have sp: "0 < real s" using assms by simp
  have u: "real n / real s \<le> real q" using ra sp by (simp add: pos_divide_le_eq)
  have "(real q - 1) * real s < real n" using rb by (simp add: algebra_simps)
  then have l: "real q - 1 < real n / real s" using sp by (simp add: pos_less_divide_eq)
  have "\<lceil>real n / real s\<rceil> = int q"
    by (rule ceiling_unique) (use u l in simp_all)
  then show ?thesis by (simp add: q_def)
qed


subsection \<open>The synthetic series\<close>

lemma mock_loop_step:
  "i < n \<Longrightarrow>
   mock_loop h rnd t n i base v =
     mock_loop h rnd t n (Suc i) (base + (rnd i - 0.45) * 50)
       \<lparr>labels = labels v @ [fmtDate h (t - int (n - i) * 3600000)],
        data = data v @ [JNum (base + (rnd i - 0.45) * 50)],
        fullTimestamps = fullTimestamps v @ [fmtLocale h (t - int (n - i) * 3600000)]\<rparr>"
  by (subst mock_loop.simps) (simp add: Let_def del: mock_loop.simps)

lemma mock_loop_stop: "\<not> i < n \<Longrightarrow> mock_loop h rnd t n i base v = v"
  by (subst mock_loop.simps) (simp del: mock_loop.simps)

lemma mock_loop_lengths:
  "length (labels (mock_loop h rnd t n i base v)) = length (labels v) + (n - i)
   \<and> length (data (mock_loop h rnd t n i base v)) = length (data v) + (n - i)
   \<and> length (fullTimestamps (mock_loop h rnd t n i base v)) = length (fullTimestamps v) + (n - i)"
proof (induction h rnd t n i base v rule: mock_loop.induct)
  case (1 h rnd t n i base v)
  show ?case
  proof (cases "i < n")
    case True
    have s: "Suc (n - Suc i) = n - i" using True by simp
    show ?thesis
      using "1"[OF True refl refl] s
      by (simp only: mock_loop_step[OF True] chart_view.simps length_append list.size) arith
  next
    case False
    then show ?thesis by (simp add: mock_loop_stop del: mock_loop.simps)
  qed
qed

lemma mock_lengths:
  "length (labels (mockHistoricalData h rnd t r)) = 100
   \<and> length (data (mockHistoricalData h rnd t r)) = 100
   \<and> length (fullTimestamps (mockHistoricalData h rnd t r)) = 100"
  using mock_loop_lengths[of h rnd t 100 0 500 "\<lparr>labels = [], data = [], fullTimestamps = []\<rparr>"]
  by (simp add: mockHistoricalData_def del: mock_loop.simps)



lemma filter_step_one: "filter_step (Suc 0) xs = xs"
  by (simp add: filter_step_map map_nth)

lemma supported_cfg:
  "map_of rangeConfig r = Some (limit, step) \<Longrightarrow>
   (r, limit, step) \<in> {(''1D'', 500, 1), (''5D'', 1500, 2), (''1M'', 3000, 5),
      (''3M'', 5000, 10), (''6M'', 8000, 20), (''1Y'', 12000, 50)}"
  using map_of_SomeD[of rangeConfig r "(limit, step)"] by (simp add: rangeConfig_def)

lemma supported_step: "map_of rangeConfig r = Some (limit, step) \<Longrightarrow> 0 < step"
  using supported_cfg[of r limit step] by auto

lemma gfcd_real:
  assumes "map_of rangeConfig (chartTimeRange st) = Some (limit, step)"
    and "\<not> (length (pnlHistory st) < 50 \<and> chartTimeRange st \<noteq> ''1D'')"
  shows "getFilteredChartData h rnd t st =
     \<lparr>labels = filter_step step (drop (length (pnlHistory st) - limit) (pnlTimestamps st)),
      data = filter_step step (drop (length (pnlHistory st) - limit) (pnlHistory st)),
      fullTimestamps =
        filter_step step (drop (length (pnlHistory st) - limit) (pnlFullTimestamps st))\<rparr>"
proof (cases "step > 1")
  case True
  then show ?thesis using assms by (auto simp add: getFilteredChartData_def lookup_cfg_def Let_def)
next
  case False
  then have "step = Suc 0" using supported_step[OF assms(1)] by simp
  then show ?thesis using assms
    by (auto simp add: getFilteredChartData_def lookup_cfg_def Let_def filter_step_one)
qed

lemma gfcd_synthetic:
  "length (pnlHistory st) < 50 \<and> chartTimeRange st \<noteq> ''1D'' \<Longrightarrow>
   getFilteredChartData h rnd t st = mockHistoricalData h rnd t (chartTimeRange st)"
  by (simp add: getFilteredChartData_def Let_def)

lemma min_sub: "(n::nat) - (n - limit) = min n limit"
  by simp

text \<open>
  Claim C6.  For a buffer whose three arrays have equal length and a supported range
  with configuration (limit, step): when real data is returned, the three output
  sequences have the same length, the ceiling of min(buffer length, limit) / step, and
  their \<open>j\<close>-th entries are the entries \<open>j * step\<close> of the last min(buffer length, limit)
  points of the buffer; when the synthetic series is returned (fewer than 50 points
  and a range other than \<open>1D\<close>), each sequence has length 100.  In particular: min(buffer
  length, 500) at \<open>1D\<close>, 30 for 60 points at \<open>5D\<close>, 240 for 20000 points at \<open>1Y\<close>.
\<close>

theorem downsample_window_stride:
  assumes al: "aligned st"
    and cfg: "map_of rangeConfig (chartTimeRange st) = Some (limit, step)"
  shows
   "(\<not> (length (pnlHistory st) < 50 \<and> chartTimeRange st \<noteq> ''1D'') \<longrightarrow>
       length (labels (getFilteredChartData h rnd t st))
         = length (data (getFilteredChartData h rnd t st))
     \<and> length (fullTimestamps (getFilteredChartData h rnd t st))
         = length (data (getFilteredChartData h rnd t st))
     \<and> int (length (data (getFilteredChartData h rnd t st)))
         = \<lceil>real (min (length (pnlHistory st)) limit) / real step\<rceil>
     \<and> (\<forall>j. j < length (data (getFilteredChartData h rnd t st)) \<longrightarrow>
           data (getFilteredChartData h rnd t st) ! j
             = pnlHistory st ! (length (pnlHistory st) - limit + j * step)
         \<and> labels (getFilteredChartData h rnd t st) ! j
             = pnlTimestamps st ! (length (pnlHistory st) - limit + j * step)
         \<and> fullTimestamps (getFilteredChartData h rnd t st) ! j
             = pnlFullTimestamps st ! (length (pnlHistory st) - limit + j * step)))
    \<and> (length (pnlHistory st) < 50 \<and> chartTimeRange st \<noteq> ''1D'' \<longrightarrow>
         length (labels (getFilteredChartData h rnd t st)) = 100
       \<and> length (data (getFilteredChartData h rnd t st)) = 100
       \<and> length (fullTimestamps (getFilteredChartData h rnd t st)) = 100)
    \<and> (chartTimeRange st = ''1D'' \<longrightarrow>
         length (data (getFilteredChartData h rnd t st)) = min (length (pnlHistory st)) 500)
    \<and> (chartTimeRange st = ''5D'' \<and> length (pnlHistory st) = 60 \<longrightarrow>
         length (data (getFilteredChartData h rnd t st)) = 30)
    \<and> (chartTimeRange st = ''1Y'' \<and> length (pnlHistory st) = 20000 \<longrightarrow>
         length (data (getFilteredChartData h rnd t st)) = 240)"
proof -
  let ?n = "length (pnlHistory st)"
  let ?v = "getFilteredChartData h rnd t st"
  have sp: "0 < step" using supported_step[OF cfg] .
  have lt: "length (pnlTimestamps st) = ?n" and lf: "length (pnlFullTimestamps st) = ?n"
    using al by (simp_all add: aligned_def)
  have len: "\<not> (?n < 50 \<and> chartTimeRange st \<noteq> ''1D'') \<Longrightarrow>
      length (data ?v) = (min ?n limit + step - 1) div step
      \<and> length (labels ?v) = (min ?n limit + step - 1) div step
      \<and> length (fullTimestamps ?v) = (min ?n limit + step - 1) div step"
    using gfcd_real[OF cfg, of h rnd t] lt lf sp by (simp add: length_filter_step min_sub)
  have c1: "\<not> (?n < 50 \<and> chartTimeRange st \<noteq> ''1D'') \<longrightarrow>
       length (labels ?v) = length (data ?v)
     \<and> length (fullTimestamps ?v) = length (data ?v)
     \<and> int (length (data ?v)) = \<lceil>real (min ?n limit) / real step\<rceil>
     \<and> (\<forall>j. j < length (data ?v) \<longrightarrow>
           data ?v ! j = pnlHistory st ! (?n - limit + j * step)
         \<and> labels ?v ! j = pnlTimestamps st ! (?n - limit + j * step)
         \<and> fullTimestamps ?v ! j = pnlFullTimestamps st ! (?n - limit + j * step))"
  proof
    assume rb: "\<not> (?n < 50 \<and> chartTimeRange st \<noteq> ''1D'')"
    note g = gfcd_real[OF cfg rb, of h rnd t]
    note l = len[OF rb]
    have nth: "\<And>j. j < length (data ?v) \<Longrightarrow>
           data ?v ! j = pnlHistory st ! (?n - limit + j * step)
         \<and> labels ?v ! j = pnlTimestamps st ! (?n - limit + j * step)
         \<and> fullTimestamps ?v ! j = pnlFullTimestamps st ! (?n - limit + j * step)"
    proof -
      fix j
      assume j: "j < length (data ?v)"
      then have "j < (min ?n limit + step - 1) div step" using l by simp
      then have b: "j * step < min ?n limit" using idx_below[OF sp] by blast
      have jd: "j < length (filter_step step (drop (?n - limit) (pnlHistory st)))"
        and jl: "j < length (filter_step step (drop (?n - limit) (pnlTimestamps st)))"
        and jf: "j < length (filter_step step (drop (?n - limit) (pnlFullTimestamps st)))"
        using j l g by simp_all
      show "data ?v ! j = pnlHistory st ! (?n - limit + j * step)
         \<and> labels ?v ! j = pnlTimestamps st ! (?n - limit + j * step)
         \<and> fullTimestamps ?v ! j = pnlFullTimestamps st ! (?n - limit + j * step)"
        using g nth_filter_step[OF sp jd] nth_filter_step[OF sp jl] nth_filter_step[OF sp jf]
          lt lf b
        by simp
    qed
    show "length (labels ?v) = length (data ?v)
     \<and> length (fullTimestamps ?v) = length (data ?v)
     \<and> int (length (data ?v)) = \<lceil>real (min ?n limit) / real step\<rceil>
     \<and> (\<forall>j. j < length (data ?v) \<longrightarrow>
           data ?v ! j = pnlHistory st ! (?n - limit + j * step)
         \<and> labels ?v ! j = pnlTimestamps st ! (?n - limit + j * step)
         \<and> fullTimestamps ?v ! j = pnlFullTimestamps st ! (?n - limit + j * step))"
      using l nth ceil_nat_div[OF sp, of "min ?n limit"] by simp
  qed
  have c2: "?n < 50 \<and> chartTimeRange st \<noteq> ''1D'' \<longrightarrow>
         length (labels ?v) = 100 \<and> length (data ?v) = 100 \<and> length (fullTimestamps ?v) = 100"
    using mock_lengths by (simp add: gfcd_synthetic)
  have c3: "chartTimeRange st = ''1D'' \<longrightarrow> length (data ?v) = min ?n 500"
  proof
    assume r: "chartTimeRange st = ''1D''"
    then have "limit = 500 \<and> step = 1" using cfg by (simp add: rangeConfig_def)
    then show "length (data ?v) = min ?n 500" using len r by simp
  qed
  have c4: "chartTimeRange st = ''5D'' \<and> ?n = 60 \<longrightarrow> length (data ?v) = 30"
  proof
    assume r: "chartTimeRange st = ''5D'' \<and> ?n = 60"
    then have "limit = 1500 \<and> step = 2" using cfg by (simp add: rangeConfig_def)
    then show "length (data ?v) = 30" using len r by simp
  qed
  have c5: "chartTimeRange st = ''1Y'' \<and> ?n = 20000 \<longrightarrow> length (data ?v) = 240"
  proof
    assume r: "chartTimeRange st = ''1Y'' \<and> ?n = 20000"
    then have "limit = 12000 \<and> step = 50" using cfg by (simp add: rangeConfig_def)
    then show "length (data ?v) = 240" using len r by simp
  qed
  show ?thesis by (intro conjI) (fact c1 c2 c3 c4 c5)+
qed

text \<open>
  Claim C6, witness: 60 points at \<open>5D\<close> give 30 points; an empty buffer at \<open>3M\<close> gives
  the synthetic series of 100 points.
\<close>

theorem downsample_window_stride_witness:
  "length (data (getFilteredChartData sample_host (\<lambda>k. 0) 0 sixty_page)) = 30
   \<and> length (labels (getFilteredChartData sample_host (\<lambda>k. 0) 0 sixty_page)) = 30
   \<and> length (fullTimestamps (getFilteredChartData sample_host (\<lambda>k. 0) 0 sixty_page)) = 30
   \<and> length (data (getFilteredChartData sample_host (\<lambda>k. 0) 0 fresh_3M_page)) = 100"
proof -
  have a1: "aligned sixty_page" by (simp add: aligned_def sixty_page_def)
  have r1: "chartTimeRange sixty_page = ''5D'' \<and> length (pnlHistory sixty_page) = 60"
    by (simp add: sixty_page_def)
  have k1: "map_of rangeConfig (chartTimeRange sixty_page) = Some (1500, 2)"
    by (simp add: sixty_page_def rangeConfig_def)
  have a2: "aligned fresh_3M_page"
    by (simp add: aligned_def fresh_3M_page_def sample_page_def initial_page_def)
  have r2: "chartTimeRange fresh_3M_page = ''3M'' \<and> length (pnlHistory fresh_3M_page) = 0"
    by (simp add: fresh_3M_page_def sample_page_def initial_page_def)
  have k2: "map_of rangeConfig (chartTimeRange fresh_3M_page) = Some (5000, 10)"
    by (simp add: fresh_3M_page_def rangeConfig_def)
  show ?thesis
    using downsample_window_stride[OF a1 k1, of sample_host "\<lambda>k. 0" 0] downsample_window_stride[OF a2 k2, of sample_host "\<lambda>k. 0" 0]
      r1 r2
    by simp
qed




lemma unknown_range_falls_back:
  assumes "map_of rangeConfig r = None" and "r \<notin> set object_prototype_members"
  shows "lookup_cfg r = Cfg 500 1"
  using assms by (simp add: lookup_cfg_def) (simp add: rangeConfig_def)

text \<open>
  Claim C10, at the failing input: the range \<open>toString\<close> is none of the six supported
  ranges, yet \<open>rangeConfig['toString']\<close> is the truthy function inherited from
  \<open>Object.prototype\<close>, so the fallback to the \<open>1D\<close> configuration is not taken: with
  600 points in the buffer all 600 are returned, where the \<open>1D\<close> configuration returns
  the last 500.
\<close>

theorem inherited_range_skips_fallback:
  "lookup_cfg ''toString'' = Inherited
   \<and> map_of rangeConfig ''toString'' = None
   \<and> length (data (getFilteredChartData sample_host (\<lambda>k. 0) 0 (long_page ''toString''))) = 600
   \<and> length (data (getFilteredChartData sample_host (\<lambda>k. 0) 0 (long_page ''1D''))) = 500"
proof -
  have n: "map_of rangeConfig ''toString'' = None" by (simp add: rangeConfig_def)
  have l: "lookup_cfg ''toString'' = Inherited"
    using n by (simp add: lookup_cfg_def object_prototype_members_def)
  have d: "lookup_cfg ''1D'' = Cfg 500 1" by (simp add: lookup_cfg_def rangeConfig_def)
  have a: "length (data (getFilteredChartData sample_host (\<lambda>k. 0) 0 (long_page ''toString''))) = 600"
    using l by (simp add: getFilteredChartData_def long_page_def Let_def)
  have b: "length (data (getFilteredChartData sample_host (\<lambda>k. 0) 0 (long_page ''1D''))) = 500"
    using d by (simp add: getFilteredChartData_def long_page_def Let_def)
  show ?thesis using n l a b by simp
qed

section \<open>The Market Feed Reconciler\<close>

text \<open>
  Claim C9.  A payload with \<open>ltp = 0\<close> is normalised to "no data": no percentage is
  computed (\<open>pct\<close> is \<open>--\<close>), the box shows the LOADING placeholder and \<open>--%\<close>, no
  price text is displayed, and the last rendered price is not overwritten.  A payload
  with a nonzero price whose status is not \<open>LOADING\<close> shows that price and its change.
\<close>

theorem zero_ltp_renders_loading:
  "(ltp item = FVal 0 \<longrightarrow>
      item_ltp item = FNull
      \<and> item_pct h item = ''--''
      \<and> render_item h selected item box =
          box\<lparr>ltpEl := Shimmer, chgEl := ''--%'',
              chgBackground := ''rgba(255,255,255,0.05)'',
              labelEl := LabelText (item_symbol selected item)\<rparr>
      \<and> (\<forall>s. ltpEl (render_item h selected item box) \<noteq> PriceText s)
      \<and> dataLastLtp (render_item h selected item box) = dataLastLtp box)
   \<and> (ltp item = FVal x \<and> x \<noteq> 0 \<and> itemStatus item \<noteq> ''LOADING'' \<longrightarrow>
      ltpEl (render_item h selected item box) = PriceText (localeIN2 h x)
      \<and> chgEl (render_item h selected item box) =
          (if item_change item \<ge> 0 then ''+'' else []) @ item_pct h item @ ''%''
      \<and> dataLastLtp (render_item h selected item box) = Some x)"
proof -
  have c1: "ltp item = FVal 0 \<longrightarrow>
      item_ltp item = FNull
      \<and> item_pct h item = ''--''
      \<and> render_item h selected item box =
          box\<lparr>ltpEl := Shimmer, chgEl := ''--%'',
              chgBackground := ''rgba(255,255,255,0.05)'',
              labelEl := LabelText (item_symbol selected item)\<rparr>
      \<and> (\<forall>s. ltpEl (render_item h selected item box) \<noteq> PriceText s)
      \<and> dataLastLtp (render_item h selected item box) = dataLastLtp box"
    by (simp add: item_ltp_def item_pct_def render_item_def)
  have st: "\<And>b. ltpEl (status_treatment selected item b) = ltpEl b
      \<and> chgEl (status_treatment selected item b) = chgEl b
      \<and> dataLastLtp (status_treatment selected item b) = dataLastLtp b"
    by (simp add: status_treatment_def Let_def)
  have ce: "\<And>b. ltpEl (commodity_extra h selected item b) = ltpEl b
      \<and> chgEl (commodity_extra h selected item b) = chgEl b
      \<and> dataLastLtp (commodity_extra h selected item b) = dataLastLtp b"
    by (simp add: commodity_extra_def Let_def)
  have c2: "ltp item = FVal x \<and> x \<noteq> 0 \<and> itemStatus item \<noteq> ''LOADING'' \<longrightarrow>
      ltpEl (render_item h selected item box) = PriceText (localeIN2 h x)
      \<and> chgEl (render_item h selected item box) =
          (if item_change item \<ge> 0 then ''+'' else []) @ item_pct h item @ ''%''
      \<and> dataLastLtp (render_item h selected item box) = Some x"
    using st ce by (simp add: item_ltp_def render_item_def Let_def)
  show ?thesis by (intro conjI) (fact c1 c2)+
qed

text \<open>
  Claim C9, witness: a NIFTY payload with \<open>ltp = 0\<close> in a new box, and the same payload
  with a price.
\<close>

theorem zero_ltp_renders_loading_witness:
  "render_item sample_host ''NIFTY'' zero_ltp_item new_box =
     new_box\<lparr>ltpEl := Shimmer, chgEl := ''--%'',
        chgBackground := ''rgba(255,255,255,0.05)'', labelEl := LabelText ''NIFTY''\<rparr>
   \<and> item_pct sample_host zero_ltp_item = ''--''
   \<and> ltpEl (render_item sample_host ''NIFTY'' live_item new_box) = PriceText ''1.00''"
proof -
  have h1: "ltp zero_ltp_item = FVal 0" by (simp add: zero_ltp_item_def)
  have h2: "ltp live_item = FVal 22110 \<and> (22110::real) \<noteq> 0 \<and> itemStatus live_item \<noteq> ''LOADING''"
    by (simp add: live_item_def zero_ltp_item_def itemStatus_def)
  have s: "item_symbol ''NIFTY'' zero_ltp_item = ''NIFTY''"
    by (simp add: item_symbol_def zero_ltp_item_def)
  have f: "localeIN2 sample_host 22110 = ''1.00''" by (simp add: sample_host_def)
  show ?thesis
    using zero_ltp_renders_loading[where item=zero_ltp_item and h=sample_host and selected="''NIFTY''"
          and box=new_box and x=0]
      zero_ltp_renders_loading[where item=live_item and h=sample_host and selected="''NIFTY''"
          and box=new_box and x=22110] h1 h2 s f
    by simp
qed

end
